theory Spec2Isabelle
  imports Complex_Main "HOL-Library.AList" "HOL-Library.Log_Nat"
begin

section \<open>Values, storage and the environment\<close>

text \<open>
  The program is TypeScript running in a browser. Its state is the \<open>localStorage\<close> of the
  page; its inputs are the clock and the local time zone.

  A JavaScript \<open>number\<close> is given by its exact rational value: the non-finite values
  (NaN and the infinities) and negative zero are not modelled. The weekly summary computes
  its correct rates and averages in binary64 arithmetic, and there every sum, product and
  quotient is rounded to the nearest double (\<open>round64\<close> below). The quotient
  \<open>elapsedMs / 60000\<close> and the quotients of the achievement statistics are taken exact.
  A string is a list of bytes; text outside ASCII is written in UTF-8.

  A value that \<open>JSON.parse\<close> returns is a \<open>json\<close>. An object lists its properties,
  each name once, in the order JavaScript enumerates them.
\<close>

datatype json =
    JNull
  | JBool bool
  | JNum rat
  | JStr string
  | JArr "json list"
  | JObj "(string \<times> json) list"

text \<open>
  A string held by \<open>localStorage\<close>. \<open>JSON.parse\<close> and \<open>JSON.stringify\<close> belong to
  the platform, so a stored string is represented by what \<open>JSON.parse\<close> makes of it:
  \<open>Serialized v\<close> is a JSON text denoting \<open>v\<close>, and \<open>Malformed s\<close> is a string \<open>s\<close>
  outside the JSON grammar (the empty string is \<open>Malformed []\<close>). What is taken from
  the platform is that \<open>JSON.parse\<close> of \<open>JSON.stringify v\<close> gives \<open>v\<close> back, for a
  value \<open>v\<close> made of finite numbers, strings, booleans, \<open>null\<close>, arrays and plain objects.
\<close>

datatype blob = Serialized json | Malformed string

datatype error = SecurityError | QuotaExceededError | SyntaxError | TypeError | OutsideModel

text \<open>
  \<open>has_window\<close>: \<open>typeof window !== 'undefined'\<close>.
  \<open>storage_blocked\<close>: every access to \<open>localStorage\<close> throws (storage disabled).
  \<open>quota_allows k v\<close>: \<open>setItem(k, v)\<close> fits the quota.
  \<open>now\<close>: the reading of \<open>Date.now()\<close>, taken as constant during one synchronous call.
  \<open>tz_offset_ms\<close>: local time minus UTC, in milliseconds, taken as fixed (no
  daylight-saving change within the dates looked at).
\<close>

record env =
  has_window :: bool
  storage_blocked :: bool
  items :: "string \<rightharpoonup> blob"
  quota_allows :: "string \<Rightarrow> blob \<Rightarrow> bool"
  now :: int
  tz_offset_ms :: int

definition localStorage_getItem :: "env \<Rightarrow> string \<Rightarrow> error + blob option" where
  "localStorage_getItem e k =
     (if storage_blocked e then Inl SecurityError else Inr (items e k))"

definition localStorage_setItem :: "env \<Rightarrow> string \<Rightarrow> blob \<Rightarrow> error + env" where
  "localStorage_setItem e k v =
     (if storage_blocked e then Inl SecurityError
      else if \<not> quota_allows e k v then Inl QuotaExceededError
      else Inr (e\<lparr>items := (items e)(k \<mapsto> v)\<rparr>))"

definition localStorage_removeItem :: "env \<Rightarrow> string \<Rightarrow> error + env" where
  "localStorage_removeItem e k =
     (if storage_blocked e then Inl SecurityError
      else Inr (e\<lparr>items := (items e)(k := None)\<rparr>))"

definition JSON_parse :: "blob \<Rightarrow> error + json" where
  "JSON_parse b = (case b of Serialized v \<Rightarrow> Inr v | Malformed s \<Rightarrow> Inl SyntaxError)"

definition JSON_stringify :: "json \<Rightarrow> blob" where
  "JSON_stringify v = Serialized v"

text \<open>\<open>!raw\<close> for the result of \<open>getItem\<close>: \<open>null\<close> and the empty string are falsy.\<close>

definition no_raw :: "blob option \<Rightarrow> bool" where
  "no_raw raw = (case raw of None \<Rightarrow> True | Some b \<Rightarrow> b = Malformed [])"

definition isArray :: "json \<Rightarrow> bool" where
  "isArray v = (case v of JArr xs \<Rightarrow> True | _ \<Rightarrow> False)"

definition elements :: "json \<Rightarrow> json list" where
  "elements v = (case v of JArr xs \<Rightarrow> xs | _ \<Rightarrow> [])"

text \<open>
  \<open>v?.k\<close> for a parsed value \<open>v\<close> and one of the property names the program reads
  (none of them is an array index, \<open>length\<close> or a name on a prototype): \<open>None\<close> is
  \<open>undefined\<close>.
\<close>

definition get_prop :: "json \<Rightarrow> string \<Rightarrow> json option" where
  "get_prop v k = (case v of JObj al \<Rightarrow> map_of al k | _ \<Rightarrow> None)"

definition typeof_number :: "json option \<Rightarrow> bool" where
  "typeof_number x = (case x of Some (JNum n) \<Rightarrow> True | _ \<Rightarrow> False)"

section \<open>StudyStorage.ts: the record store\<close>

record StudyRecord =
  module_r :: string
  score :: rat
  total_r :: rat
  elapsedMs :: rat
  timestamp :: rat

text \<open>The object a caller passes to \<open>addRecord\<close>, as a value.\<close>

definition recordObject :: "StudyRecord \<Rightarrow> json" where
  "recordObject r =
     JObj [(''module'', JStr (module_r r)), (''score'', JNum (score r)),
           (''total'', JNum (total_r r)), (''elapsedMs'', JNum (elapsedMs r)),
           (''timestamp'', JNum (timestamp r))]"

text \<open>
  An element of the stored array read at its declared type: \<open>None\<close> when one of the five
  fields is missing or has another type.
\<close>

definition asRecord :: "json \<Rightarrow> StudyRecord option" where
  "asRecord v =
     (case (get_prop v ''module'', get_prop v ''score'', get_prop v ''total'', get_prop v ''elapsedMs'',
            get_prop v ''timestamp'') of
        (Some (JStr m), Some (JNum s), Some (JNum t), Some (JNum el), Some (JNum ts)) \<Rightarrow>
          Some \<lparr>module_r = m, score = s, total_r = t, elapsedMs = el, timestamp = ts\<rparr>
      | _ \<Rightarrow> None)"

definition KEY :: string where
  "KEY = ''kids-coding-study-records:v1''"

definition ACH_KEY :: string where
  "ACH_KEY = ''kids-coding-achievements:v1''"

definition has_numeric_timestamp :: "json \<Rightarrow> bool" where
  "has_numeric_timestamp v = typeof_number (get_prop v ''timestamp'')"

text \<open>The \<open>try\<close> block of \<open>getRecords\<close>.\<close>

definition getRecords_try :: "env \<Rightarrow> error + json list" where
  "getRecords_try e =
     (case localStorage_getItem e KEY of
        Inl x \<Rightarrow> Inl x
      | Inr raw \<Rightarrow>
          if no_raw raw then Inr []
          else (case JSON_parse (the raw) of
                  Inl x \<Rightarrow> Inl x
                | Inr parsed \<Rightarrow>
                    Inr (if isArray parsed then filter has_numeric_timestamp (elements parsed)
                         else [])))"

definition getRecords :: "env \<Rightarrow> error + json list" where
  "getRecords e =
     (if \<not> has_window e then Inr []
      else (case getRecords_try e of Inl x \<Rightarrow> Inr [] | Inr rs \<Rightarrow> Inr rs))"

definition addRecord :: "env \<Rightarrow> StudyRecord \<Rightarrow> error + env" where
  "addRecord e rec =
     (if \<not> has_window e then Inr e
      else (case getRecords e of
              Inl x \<Rightarrow> Inl x
            | Inr arr \<Rightarrow>
                (case localStorage_setItem e KEY (JSON_stringify (JArr (arr @ [recordObject rec]))) of
                   Inl x \<Rightarrow> Inr e
                 | Inr e' \<Rightarrow> Inr e')))"

definition clearRecords :: "env \<Rightarrow> error + env" where
  "clearRecords e =
     (if \<not> has_window e then Inr e
      else (case localStorage_removeItem e KEY of Inl x \<Rightarrow> Inr e | Inr e' \<Rightarrow> Inr e'))"

section \<open>The platform's numbers and dates\<close>

text \<open>\<open>Math.round\<close>: the nearest integer, a tie going up; it does not round twice.\<close>

definition Math_round :: "rat \<Rightarrow> int" where
  "Math_round x = \<lfloor>x + 1 / 2\<rfloor>"

subsection \<open>Binary64 arithmetic\<close>

text \<open>\<open>ilog2 a\<close> is the floor of the binary logarithm of \<open>a\<close>, for \<open>a > 0\<close>.\<close>

definition ilog2 :: "rat \<Rightarrow> int" where
  "ilog2 a =
     (if a \<ge> 1 then bitlen \<lfloor>a\<rfloor> - 1
      else (let b = 1 / a; k = bitlen \<lfloor>b\<rfloor>
            in if b = 2 ^ nat (k - 1) then - (k - 1) else - k))"

definition pow2 :: "int \<Rightarrow> rat" where
  "pow2 p = (if p \<ge> 0 then 2 ^ nat p else 1 / 2 ^ nat (- p))"

text \<open>The nearest integer, a tie going to the even one.\<close>

definition round_half_even :: "rat \<Rightarrow> int" where
  "round_half_even q =
     (let f = \<lfloor>q\<rfloor>; r = q - of_int f
      in if r < 1 / 2 then f else if r > 1 / 2 then f + 1 else if even f then f else f + 1)"

text \<open>
  The double nearest to \<open>x\<close>, a tie going to the even significand: 53 bits of
  significand, the spacing never below \<open>2^-1074\<close> (subnormal numbers). The overflow to
  infinity, from \<open>2^1024\<close> on, is not modelled.
\<close>

definition round64 :: "rat \<Rightarrow> rat" where
  "round64 x =
     (if x = 0 then 0
      else (let a = \<bar>x\<bar>;
                p = max (ilog2 a - 52) (- 1074);
                n = round_half_even (a / pow2 p)
            in sgn x * of_int n * pow2 p))"

text \<open>The operators \<open>+\<close>, \<open>*\<close> and \<open>/\<close> on doubles.\<close>

definition fadd :: "rat \<Rightarrow> rat \<Rightarrow> rat" where
  "fadd a b = round64 (a + b)"

definition fmul :: "rat \<Rightarrow> rat \<Rightarrow> rat" where
  "fmul a b = round64 (a * b)"

definition fdiv :: "rat \<Rightarrow> rat \<Rightarrow> rat" where
  "fdiv a b = round64 (a / b)"

text \<open>
  \<open>Number(x.toFixed(2))\<close> for a double \<open>x\<close>: \<open>toFixed\<close> takes the integer \<open>n\<close> for which
  \<open>n / 100\<close> is nearest to the magnitude of \<open>x\<close>, the larger one at a tie, and prints it
  with two decimals; \<open>Number\<close> reads the decimals as a double. From \<open>10^21\<close> on
  \<open>toFixed\<close> prints the number itself.
\<close>

definition toFixed2 :: "rat \<Rightarrow> rat" where
  "toFixed2 x =
     (if \<bar>x\<bar> \<ge> 10 ^ 21 then x
      else if x < 0 then round64 (- (of_int \<lfloor>- x * 100 + 1 / 2\<rfloor> / 100))
      else round64 (of_int \<lfloor>x * 100 + 1 / 2\<rfloor> / 100))"

text \<open>\<open>new Date(t)\<close>: the time value is truncated; out of range it is an invalid date.\<close>

definition TimeClip :: "rat \<Rightarrow> int option" where
  "TimeClip t =
     (if \<bar>t\<bar> > 8640000000000000 then None
      else Some (if t < 0 then \<lceil>t\<rceil> else \<lfloor>t\<rfloor>))"

definition msPerDay :: int where
  "msPerDay = 86400000"

text \<open>The local calendar day of a time value, counted from 1970-01-01.\<close>

definition local_day :: "env \<Rightarrow> int \<Rightarrow> int" where
  "local_day e t = (t + tz_offset_ms e) div msPerDay"

text \<open>Year, month (1 to 12) and day of the month of a day number (Gregorian calendar).\<close>

definition civil_from_days :: "int \<Rightarrow> int \<times> int \<times> int" where
  "civil_from_days z0 =
     (let z = z0 + 719468;
          era = z div 146097;
          doe = z mod 146097;
          yoe = (doe - doe div 1460 + doe div 36524 - doe div 146096) div 365;
          doy = doe - (365 * yoe + yoe div 4 - yoe div 100);
          mp = (5 * doy + 2) div 153;
          d = doy - (153 * mp + 2) div 5 + 1;
          m = (if mp < 10 then mp + 3 else mp - 9);
          y = yoe + era * 400
      in (if m \<le> 2 then y + 1 else y, m, d))"

text \<open>\<open>getDay()\<close>: 0 is Sunday; 1970-01-01 was a Thursday.\<close>

definition getDay :: "int \<Rightarrow> nat" where
  "getDay dayno = nat ((dayno + 4) mod 7)"

fun show_nat :: "nat \<Rightarrow> string" where
  "show_nat n =
     (if n < 10 then [''0123456789'' ! n]
      else show_nat (n div 10) @ [''0123456789'' ! (n mod 10)])"

declare show_nat.simps [simp del]

definition show_int :: "int \<Rightarrow> string" where
  "show_int i = (if i < 0 then CHR ''-'' # show_nat (nat (- i)) else show_nat (nat i))"

definition padStart2 :: "string \<Rightarrow> string" where
  "padStart2 s = replicate (2 - length s) CHR ''0'' @ s"

section \<open>StudyStorage.ts: day keys and the weekly summary\<close>

definition toDateKey :: "env \<Rightarrow> rat \<Rightarrow> string" where
  "toDateKey e ts =
     (case TimeClip ts of
        None \<Rightarrow> ''NaN-NaN-NaN''
      | Some t \<Rightarrow>
          (case civil_from_days (local_day e t) of
             (y, m, day) \<Rightarrow>
               show_int y @ ''-'' @ padStart2 (show_int m) @ ''-'' @ padStart2 (show_int day)))"

record day_label =
  key :: string
  label :: string

text \<open>The weekday names of \<open>getLast7DayLabels\<close>, Sunday first, in UTF-8.\<close>

definition weekday_names :: "string list" where
  "weekday_names =
     [[CHR 0xE5, CHR 0x91, CHR 0xA8, CHR 0xE6, CHR 0x97, CHR 0xA5],
      [CHR 0xE5, CHR 0x91, CHR 0xA8, CHR 0xE4, CHR 0xB8, CHR 0x80],
      [CHR 0xE5, CHR 0x91, CHR 0xA8, CHR 0xE4, CHR 0xBA, CHR 0x8C],
      [CHR 0xE5, CHR 0x91, CHR 0xA8, CHR 0xE4, CHR 0xB8, CHR 0x89],
      [CHR 0xE5, CHR 0x91, CHR 0xA8, CHR 0xE5, CHR 0x9B, CHR 0x9B],
      [CHR 0xE5, CHR 0x91, CHR 0xA8, CHR 0xE4, CHR 0xBA, CHR 0x94],
      [CHR 0xE5, CHR 0x91, CHR 0xA8, CHR 0xE5, CHR 0x85, CHR 0xAD]]"

text \<open>
  One turn of the loop of \<open>getLast7DayLabels\<close>: the local midnight \<open>i\<close> days before today
  (\<open>setHours(0, 0, 0, 0)\<close>, then \<open>setDate(getDate() - i)\<close>), its key and its weekday.
\<close>

definition label_for :: "env \<Rightarrow> int \<Rightarrow> day_label" where
  "label_for e i =
     (let dayno = local_day e (now e) - i;
          time = dayno * msPerDay - tz_offset_ms e
      in \<lparr>key = toDateKey e (of_int time), label = weekday_names ! getDay dayno\<rparr>)"

definition getLast7DayLabels :: "env \<Rightarrow> day_label list" where
  "getLast7DayLabels e = map (label_for e) [6, 5, 4, 3, 2, 1, 0]"

record bucket =
  bminutes :: int
  bcorrect :: rat
  btotal :: rat

record day_stat =
  day :: string
  minutes :: int
  correctRate :: rat

record summary =
  weekly :: "day_stat list"
  totalMinutes :: int
  avgCorrectRate :: int
  streakDays :: nat
  correctMinutes :: int
  wrongMinutes :: int

definition zero_bucket :: bucket where
  "zero_bucket = \<lparr>bminutes = 0, bcorrect = 0, btotal = 0\<rparr>"

text \<open>\<open>labels.forEach(l => (byDay[l.key] = {minutes: 0, correct: 0, total: 0}))\<close>\<close>

definition init_byDay :: "day_label list \<Rightarrow> (string \<rightharpoonup> bucket)" where
  "init_byDay labels = foldl (\<lambda>byDay l. byDay(key l \<mapsto> zero_bucket)) Map.empty labels"

text \<open>The minutes one record adds to its day in the weekly summary.\<close>

definition weekly_minutes_of :: "StudyRecord \<Rightarrow> int" where
  "weekly_minutes_of r = max 0 (Math_round (elapsedMs r / 60000))"

text \<open>The body of the loop \<open>for (const r of records)\<close>.\<close>

definition add_to_day :: "env \<Rightarrow> (string \<rightharpoonup> bucket) \<Rightarrow> StudyRecord \<Rightarrow> (string \<rightharpoonup> bucket)" where
  "add_to_day e byDay r =
     (let k = toDateKey e (timestamp r)
      in case byDay k of
           None \<Rightarrow> byDay
         | Some b \<Rightarrow>
             byDay(k \<mapsto> \<lparr>bminutes = bminutes b + weekly_minutes_of r,
                          bcorrect = fadd (bcorrect b) (score r),
                          btotal = fadd (btotal b) (total_r r)\<rparr>))"

text \<open>The callback of \<open>labels.map\<close>; reading a field of \<open>undefined\<close> is a TypeError.\<close>

definition weekly_entry :: "(string \<rightharpoonup> bucket) \<Rightarrow> day_label \<Rightarrow> day_stat option" where
  "weekly_entry byDay l =
     (case byDay (key l) of
        None \<Rightarrow> None
      | Some v \<Rightarrow>
          (let cr = (if btotal v > 0 then fdiv (bcorrect v) (btotal v) else 0)
           in Some \<lparr>day = label l, minutes = bminutes v, correctRate = toFixed2 cr\<rparr>))"

text \<open>
  The streak loop \<open>for (let i = weekly.length - 1; i >= 0; i--)\<close>; the second argument is
  \<open>i + 1\<close>.
\<close>

fun streak_loop :: "day_stat list \<Rightarrow> nat \<Rightarrow> nat \<Rightarrow> nat" where
  "streak_loop w 0 streak = streak"
| "streak_loop w (Suc i) streak =
     (if minutes (w ! i) > 0 then streak_loop w i (streak + 1) else streak)"

text \<open>What \<open>getWeeklySummaryFromStorage\<close> computes from \<open>weekly\<close>.\<close>

definition summarize :: "day_stat list \<Rightarrow> summary" where
  "summarize w =
     (let totalMinutes = foldl (\<lambda>s d. s + minutes d) 0 w;
          minuteSum = foldl (\<lambda>s d. s + minutes d) 0 w;
          avgCorrectRate =
            (if minuteSum > 0
             then (let weighted =
                         foldl (\<lambda>s d. fadd s (fmul (correctRate d) (of_int (minutes d)))) 0 w
                   in Math_round (fmul (fdiv weighted (of_int minuteSum)) 100))
             else (let avg = fdiv (foldl (\<lambda>s d. fadd s (correctRate d)) 0 w)
                                  (if length w = 0 then 1 else of_nat (length w))
                   in Math_round (fmul avg 100)));
          streak = streak_loop w (length w) 0;
          correctMinutes =
            foldl (\<lambda>s d. s + Math_round (fmul (of_int (minutes d)) (correctRate d))) 0 w
      in \<lparr>weekly = w, totalMinutes = totalMinutes, avgCorrectRate = avgCorrectRate,
          streakDays = streak, correctMinutes = correctMinutes,
          wrongMinutes = max 0 (totalMinutes - correctMinutes)\<rparr>)"

text \<open>
  What follows \<open>const records = getRecords()\<close> in \<open>getWeeklySummaryFromStorage\<close>, for
  records that have their declared type.
\<close>

definition weeklySummaryOf :: "env \<Rightarrow> StudyRecord list \<Rightarrow> error + summary" where
  "weeklySummaryOf e records =
     (let labels = getLast7DayLabels e;
          byDay = foldl (add_to_day e) (init_byDay labels) records
      in case those (map (weekly_entry byDay) labels) of
           None \<Rightarrow> Inl TypeError
         | Some w \<Rightarrow> Inr (summarize w))"

text \<open>
  The stored records at their declared type. Arithmetic on a missing or non-numeric field
  (\<open>undefined\<close>, NaN) is not modelled: such a store is \<open>OutsideModel\<close>.
\<close>

definition typedRecords :: "env \<Rightarrow> error + StudyRecord list" where
  "typedRecords e =
     (case getRecords e of
        Inl x \<Rightarrow> Inl x
      | Inr rs \<Rightarrow> (case those (map asRecord rs) of None \<Rightarrow> Inl OutsideModel | Some ts \<Rightarrow> Inr ts))"

definition getWeeklySummaryFromStorage :: "env \<Rightarrow> error + summary" where
  "getWeeklySummaryFromStorage e =
     (case typedRecords e of Inl x \<Rightarrow> Inl x | Inr records \<Rightarrow> weeklySummaryOf e records)"

text \<open>\<open>getRecordsWithinDays\<close>: the records with \<open>start \<le> timestamp \<le> end\<close>.\<close>

definition getRecordsWithinDays :: "env \<Rightarrow> int \<Rightarrow> error + StudyRecord list" where
  "getRecordsWithinDays e days =
     (let end_t = now e;
          start = end_t - (days - 1) * 24 * 60 * 60 * 1000
      in case typedRecords e of
           Inl x \<Rightarrow> Inl x
         | Inr rs \<Rightarrow>
             Inr (filter (\<lambda>r. timestamp r \<ge> of_int start \<and> timestamp r \<le> of_int end_t) rs))"

section \<open>Home.tsx: today's minutes and today's modules\<close>

text \<open>The minutes one record adds to the two views of today.\<close>

definition today_minutes_of :: "StudyRecord \<Rightarrow> int" where
  "today_minutes_of r = max 1 (Math_round (elapsedMs r / 60000))"

text \<open>
  \<open>getRecordsWithinDays(1).filter((r) => toDateKey(r.timestamp) === todayKey)\<close>, as
  both \<open>todayStats\<close> and \<open>todayBreakdown\<close> begin.
\<close>

definition recordsToday :: "env \<Rightarrow> error + StudyRecord list" where
  "recordsToday e =
     (let todayKey = toDateKey e (of_int (now e))
      in case getRecordsWithinDays e 1 of
           Inl x \<Rightarrow> Inl x
         | Inr rs \<Rightarrow> Inr (filter (\<lambda>r. toDateKey e (timestamp r) = todayKey) rs))"

text \<open>The field \<open>minutes\<close> of \<open>todayStats\<close>.\<close>

definition todayStats_minutes :: "env \<Rightarrow> error + int" where
  "todayStats_minutes e =
     (case recordsToday e of
        Inl x \<Rightarrow> Inl x
      | Inr rs \<Rightarrow> Inr (foldl (\<lambda>s r. s + today_minutes_of r) 0 rs))"

text \<open>
  The \<open>Map\<close> that \<open>todayBreakdown\<close> fills, in insertion order:
  \<open>group.set(r.module, (group.get(r.module) || 0) + m)\<close>.
\<close>

definition group_add :: "(string \<times> int) list \<Rightarrow> StudyRecord \<Rightarrow> (string \<times> int) list" where
  "group_add grp r =
     (let m = today_minutes_of r;
          old = (case map_of grp (module_r r) of None \<Rightarrow> 0 | Some n \<Rightarrow> n)
      in AList.update (module_r r) (old + m) grp)"

definition todayGroups :: "env \<Rightarrow> error + (string \<times> int) list" where
  "todayGroups e =
     (case recordsToday e of
        Inl x \<Rightarrow> Inl x
      | Inr rs \<Rightarrow> Inr (foldl group_add [] rs))"

text \<open>The entries sorted by minutes, largest first (the sort is stable), the first four.\<close>

definition todayBreakdown :: "env \<Rightarrow> error + (string \<times> int) list" where
  "todayBreakdown e =
     (case todayGroups e of
        Inl x \<Rightarrow> Inl x
      | Inr grp \<Rightarrow> Inr (take 4 (sort_key (\<lambda>item. - snd item) grp)))"

section \<open>AchievementsData.ts\<close>

record Stats =
  sessions :: nat
  totalAnswered :: rat
  totalCorrect :: rat
  bestAccuracy :: rat
  stats_streakDays :: nat
  stats_minutes :: int
  moduleCounts :: "string \<rightharpoonup> nat"

datatype tone = emerald | sky | amber | rose | violet | indigo

datatype icon = Trophy | Award | Crown | Star | Target | Calculator

text \<open>A badge definition; the two display texts (title and description) are left out.\<close>

record BadgeDef =
  badge_id :: string
  badge_tone :: tone
  badge_icon :: icon
  goal :: "rat option"
  check :: "Stats \<Rightarrow> bool \<times> rat option"

text \<open>
  The object that \<open>getUnlockedMap\<close> returns: a plain object, or an array (which passes
  \<open>typeof parsed === 'object'\<close>) with the named properties set on it later. Only badge ids
  are looked up, and none is an index or \<open>length\<close>.
\<close>

datatype jsobject = PlainObject "(string \<times> json) list" | ArrayObject "json list" "(string \<times> json) list"

definition obj_get :: "jsobject \<Rightarrow> string \<Rightarrow> json option" where
  "obj_get ob k = (case ob of PlainObject al \<Rightarrow> map_of al k | ArrayObject xs ps \<Rightarrow> map_of ps k)"

definition obj_set :: "jsobject \<Rightarrow> string \<Rightarrow> json \<Rightarrow> jsobject" where
  "obj_set ob k v =
     (case ob of
        PlainObject al \<Rightarrow> PlainObject (AList.update k v al)
      | ArrayObject xs ps \<Rightarrow> ArrayObject xs (AList.update k v ps))"

text \<open>\<open>JSON.stringify\<close> writes the elements of an array and none of its named properties.\<close>

definition obj_json :: "jsobject \<Rightarrow> json" where
  "obj_json ob = (case ob of PlainObject al \<Rightarrow> JObj al | ArrayObject xs ps \<Rightarrow> JArr xs)"

text \<open>JavaScript's truthiness; \<open>None\<close> is \<open>undefined\<close>.\<close>

definition truthy :: "json \<Rightarrow> bool" where
  "truthy v =
     (case v of JNull \<Rightarrow> False | JBool b \<Rightarrow> b | JNum n \<Rightarrow> n \<noteq> 0 | JStr s \<Rightarrow> s \<noteq> []
      | JArr xs \<Rightarrow> True | JObj al \<Rightarrow> True)"

definition truthy_opt :: "json option \<Rightarrow> bool" where
  "truthy_opt x = (case x of None \<Rightarrow> False | Some v \<Rightarrow> truthy v)"

definition getUnlockedMap_try :: "env \<Rightarrow> error + jsobject" where
  "getUnlockedMap_try e =
     (case localStorage_getItem e ACH_KEY of
        Inl x \<Rightarrow> Inl x
      | Inr raw \<Rightarrow>
          if no_raw raw then Inr (PlainObject [])
          else (case JSON_parse (the raw) of
                  Inl x \<Rightarrow> Inl x
                | Inr parsed \<Rightarrow>
                    Inr (case parsed of
                           JObj al \<Rightarrow> PlainObject al
                         | JArr xs \<Rightarrow> ArrayObject xs []
                         | _ \<Rightarrow> PlainObject [])))"

definition getUnlockedMap :: "env \<Rightarrow> error + jsobject" where
  "getUnlockedMap e =
     (if \<not> has_window e then Inr (PlainObject [])
      else (case getUnlockedMap_try e of Inl x \<Rightarrow> Inr (PlainObject []) | Inr m \<Rightarrow> Inr m))"

definition setUnlockedMap :: "env \<Rightarrow> jsobject \<Rightarrow> error + env" where
  "setUnlockedMap e m =
     (if \<not> has_window e then Inr e
      else (case localStorage_setItem e ACH_KEY (JSON_stringify (obj_json m)) of
              Inl x \<Rightarrow> Inr e
            | Inr e' \<Rightarrow> Inr e'))"

text \<open>The state of the loop of \<open>computeStats\<close> and its body.\<close>

record stats_acc =
  acc_totalAnswered :: rat
  acc_totalCorrect :: rat
  acc_bestAccuracy :: rat
  acc_minutes :: int
  acc_moduleCounts :: "string \<rightharpoonup> nat"

definition stats_step :: "stats_acc \<Rightarrow> StudyRecord \<Rightarrow> stats_acc" where
  "stats_step a r =
     (let acc = (if total_r r > 0 then score r / total_r r else 0)
      in \<lparr>acc_totalAnswered = acc_totalAnswered a + total_r r,
          acc_totalCorrect = acc_totalCorrect a + score r,
          acc_bestAccuracy = (if acc > acc_bestAccuracy a then acc else acc_bestAccuracy a),
          acc_minutes = acc_minutes a + max 0 (Math_round (elapsedMs r / 60000)),
          acc_moduleCounts =
            (acc_moduleCounts a)(module_r r \<mapsto>
               (case acc_moduleCounts a (module_r r) of None \<Rightarrow> 0 | Some c \<Rightarrow> c) + 1)\<rparr>)"

definition computeStats :: "env \<Rightarrow> StudyRecord list \<Rightarrow> error + Stats" where
  "computeStats e records =
     (let a = foldl stats_step
                \<lparr>acc_totalAnswered = 0, acc_totalCorrect = 0, acc_bestAccuracy = 0,
                 acc_minutes = 0, acc_moduleCounts = Map.empty\<rparr> records
      in case getWeeklySummaryFromStorage e of
           Inl x \<Rightarrow> Inl x
         | Inr w \<Rightarrow>
             Inr \<lparr>sessions = length records, totalAnswered = acc_totalAnswered a,
                  totalCorrect = acc_totalCorrect a, bestAccuracy = acc_bestAccuracy a,
                  stats_streakDays = streakDays w, stats_minutes = acc_minutes a,
                  moduleCounts = acc_moduleCounts a\<rparr>)"

text \<open>The module name that badge \<open>math-3\<close> counts, in UTF-8.\<close>

definition math_module :: string where
  "math_module =
     [CHR 0xE5, CHR 0x8A, CHR 0xA0, CHR 0xE5, CHR 0x87, CHR 0x8F, CHR 0xE6, CHR 0xB3, CHR 0x95,
      CHR 0xE7, CHR 0xBB, CHR 0x83, CHR 0xE4, CHR 0xB9, CHR 0xA0]"

definition BADGES :: "BadgeDef list" where
  "BADGES =
     [\<lparr>badge_id = ''starter-1'', badge_tone = emerald, badge_icon = Trophy, goal = Some 1,
       check = (\<lambda>s. (sessions s \<ge> 1, Some (min 1 (of_nat (sessions s) / 1))))\<rparr>,
      \<lparr>badge_id = ''ten-sessions'', badge_tone = sky, badge_icon = Star, goal = Some 10,
       check = (\<lambda>s. (sessions s \<ge> 10, Some (min 1 (of_nat (sessions s) / 10))))\<rparr>,
      \<lparr>badge_id = ''hundred-answers'', badge_tone = amber, badge_icon = Target, goal = Some 100,
       check = (\<lambda>s. (totalAnswered s \<ge> 100, Some (min 1 (totalAnswered s / 100))))\<rparr>,
      \<lparr>badge_id = ''accuracy-90'', badge_tone = violet, badge_icon = Crown, goal = None,
       check = (\<lambda>s. (bestAccuracy s \<ge> 9 / 10, Some (bestAccuracy s)))\<rparr>,
      \<lparr>badge_id = ''streak-3'', badge_tone = indigo, badge_icon = Award, goal = Some 3,
       check = (\<lambda>s. (stats_streakDays s \<ge> 3, Some (min 1 (of_nat (stats_streakDays s) / 3))))\<rparr>,
      \<lparr>badge_id = ''math-3'', badge_tone = rose, badge_icon = Calculator, goal = Some 3,
       check = (\<lambda>s. (let c = (case moduleCounts s math_module of None \<Rightarrow> 0 | Some n \<Rightarrow> n)
                      in (c \<ge> 3, Some (min 1 (of_nat c / 3)))))\<rparr>]"

record BadgeStatus =
  badge :: BadgeDef
  unlocked :: bool
  progress :: "rat option"
  unlockedAt :: "json option"

text \<open>
  The callback of \<open>BADGES.map\<close> in \<open>getAchievementsState\<close>. It writes to \<open>unlockedMap\<close>,
  so the map is threaded through: the state is the map and the statuses made so far.
\<close>

definition badge_step :: "env \<Rightarrow> Stats \<Rightarrow> jsobject \<times> BadgeStatus list \<Rightarrow> BadgeDef
    \<Rightarrow> jsobject \<times> BadgeStatus list" where
  "badge_step e stats st b =
     (let unlockedMap = fst st;
          res = check b stats;
          unl = fst res;
          unlockedAt0 = obj_get unlockedMap (badge_id b)
      in if unl \<and> \<not> truthy_opt unlockedAt0 \<and> has_window e
         then (obj_set unlockedMap (badge_id b) (JNum (of_int (now e))),
               snd st @ [\<lparr>badge = b, unlocked = unl, progress = snd res,
                          unlockedAt = Some (JNum (of_int (now e)))\<rparr>])
         else (unlockedMap,
               snd st @ [\<lparr>badge = b, unlocked = unl, progress = snd res,
                          unlockedAt = unlockedAt0\<rparr>]))"

record achievements =
  ach_stats :: Stats
  ach_badges :: "BadgeStatus list"
  ach_unlockedMap :: jsobject
  ach_level :: int
  ach_points :: rat

text \<open>
  \<open>getAchievementsState\<close> from \<open>const unlockedMap = getUnlockedMap()\<close> on, for the statistics
  computed before.
\<close>

definition achievementsWith :: "env \<Rightarrow> Stats \<Rightarrow> error + achievements \<times> env" where
  "achievementsWith e stats =
     (case getUnlockedMap e of
        Inl x \<Rightarrow> Inl x
      | Inr unlockedMap0 \<Rightarrow>
          (let st = foldl (badge_step e stats) (unlockedMap0, []) BADGES;
               unlockedMap = fst st;
               badges = snd st
           in case setUnlockedMap e unlockedMap of
                Inl x \<Rightarrow> Inl x
              | Inr e' \<Rightarrow>
                  (let points = totalCorrect stats;
                       level = max 1 (\<lfloor>points / 50\<rfloor> + 1)
                   in Inr (\<lparr>ach_stats = stats, ach_badges = badges, ach_unlockedMap = unlockedMap,
                            ach_level = level, ach_points = points\<rparr>, e'))))"

definition getAchievementsState :: "env \<Rightarrow> error + achievements \<times> env" where
  "getAchievementsState e =
     (case typedRecords e of
        Inl x \<Rightarrow> Inl x
      | Inr records \<Rightarrow>
          (case computeStats e records of
             Inl x \<Rightarrow> Inl x
           | Inr stats \<Rightarrow> achievementsWith e stats))"

section \<open>The weekly summary as the specification words it\<close>

text \<open>The records of the day with key \<open>k\<close>.\<close>

definition day_records :: "env \<Rightarrow> string \<Rightarrow> StudyRecord list \<Rightarrow> StudyRecord list" where
  "day_records e k rs = filter (\<lambda>r. toDateKey e (timestamp r) = k) rs"

text \<open>A sum as JavaScript adds it: from the left, every addition rounded.\<close>

definition fsum :: "rat list \<Rightarrow> rat" where
  "fsum xs = foldl fadd 0 xs"

text \<open>The correct answers and the questions of the day of a label.\<close>

definition day_correct :: "env \<Rightarrow> StudyRecord list \<Rightarrow> day_label \<Rightarrow> rat" where
  "day_correct e rs l = fsum (map score (day_records e (key l) rs))"

definition day_total :: "env \<Rightarrow> StudyRecord list \<Rightarrow> day_label \<Rightarrow> rat" where
  "day_total e rs l = fsum (map total_r (day_records e (key l) rs))"

text \<open>
  The entry of \<open>weekly\<close> for one label: the minutes of the day's records, each
  \<open>max(0, round(elapsedMs / 60000))\<close>, and the day's correct rate.
\<close>

definition day_entry :: "env \<Rightarrow> StudyRecord list \<Rightarrow> day_label \<Rightarrow> day_stat" where
  "day_entry e rs l =
     (let today = day_records e (key l) rs;
          c = day_correct e rs l;
          t = day_total e rs l
      in \<lparr>day = label l,
          minutes = sum_list (map (\<lambda>r. max 0 (Math_round (elapsedMs r / 60000))) today),
          correctRate = toFixed2 (if t > 0 then fdiv c t else 0)\<rparr>)"



section \<open>The unlock ledger as the specification words it\<close>

text \<open>The entry of the persisted unlock map for a badge id, when the slot holds an object.\<close>

definition persisted_unlock :: "env \<Rightarrow> string \<Rightarrow> json option" where
  "persisted_unlock e k =
     (case items e ACH_KEY of Some (Serialized (JObj al)) \<Rightarrow> map_of al k | _ \<Rightarrow> None)"

text \<open>What a result of \<open>getAchievementsState\<close> reports for a badge id: the flag and the time.\<close>

definition reported :: "achievements \<Rightarrow> string \<Rightarrow> (bool \<times> json option) option" where
  "reported a k =
     map_option (\<lambda>st. (unlocked st, unlockedAt st))
       (find (\<lambda>st. badge_id (badge st) = k) (ach_badges a))"

text \<open>The same two readings after one call of \<open>getAchievementsState\<close> in \<open>e\<close>.\<close>

definition unlock_after :: "env \<Rightarrow> string \<Rightarrow> error + json option" where
  "unlock_after e k = map_sum id (\<lambda>p. persisted_unlock (snd p) k) (getAchievementsState e)"

definition report_after :: "env \<Rightarrow> string \<Rightarrow> error + (bool \<times> json option) option" where
  "report_after e k = map_sum id (\<lambda>p. reported (fst p) k) (getAchievementsState e)"

text \<open>
  \<open>later e e'\<close>: the environment \<open>e'\<close> comes from \<open>e\<close> by calls of \<open>addRecord\<close>,
  \<open>clearRecords\<close> and \<open>getAchievementsState\<close> and by the passing of time.
\<close>

inductive later :: "env \<Rightarrow> env \<Rightarrow> bool" for e :: env where
  later_refl: "later e e"
| later_add: "later e e1 \<Longrightarrow> addRecord e1 r = Inr e2 \<Longrightarrow> later e e2"
| later_clear: "later e e1 \<Longrightarrow> clearRecords e1 = Inr e2 \<Longrightarrow> later e e2"
| later_eval: "later e e1 \<Longrightarrow> getAchievementsState e1 = Inr (a, e2) \<Longrightarrow> later e e2"
| later_clock: "later e e1 \<Longrightarrow> later e (e1\<lparr>now := t\<rparr>)"

text \<open>
  \<open>ledger_run e\<close>: the program can bring the browser to \<open>e\<close>. It starts with no unlock
  map stored and goes on by calls of \<open>addRecord\<close>, \<open>clearRecords\<close> and
  \<open>getAchievementsState\<close>, by the passing of time and by changes of the browser's
  settings (access to the storage, its quota, the time zone); the clock reads a time after
  the epoch.
\<close>

inductive ledger_run :: "env \<Rightarrow> bool" where
  run_start: "items e ACH_KEY = None \<Longrightarrow> 0 < now e \<Longrightarrow> ledger_run e"
| run_add: "ledger_run e \<Longrightarrow> addRecord e r = Inr e' \<Longrightarrow> ledger_run e'"
| run_clear: "ledger_run e \<Longrightarrow> clearRecords e = Inr e' \<Longrightarrow> ledger_run e'"
| run_eval: "ledger_run e \<Longrightarrow> getAchievementsState e = Inr (a, e') \<Longrightarrow> ledger_run e'"
| run_clock: "ledger_run e \<Longrightarrow> 0 < t \<Longrightarrow> ledger_run (e\<lparr>now := t\<rparr>)"
| run_browser: "ledger_run e \<Longrightarrow>
     ledger_run (e\<lparr>storage_blocked := b, quota_allows := q, tz_offset_ms := z\<rparr>)"

text \<open>The unlock map is a plain object, not an array.\<close>

definition is_plain :: "jsobject \<Rightarrow> bool" where
  "is_plain m = (case m of PlainObject al \<Rightarrow> True | ArrayObject xs ps \<Rightarrow> False)"

section \<open>Example inputs\<close>

text \<open>A browser with the given storage contents and clock, unlimited quota, on UTC.\<close>

definition browser :: "(string \<rightharpoonup> blob) \<Rightarrow> int \<Rightarrow> env" where
  "browser st t =
     \<lparr>has_window = True, storage_blocked = False, items = st,
      quota_allows = (\<lambda>k v. True), now = t, tz_offset_ms = 0\<rparr>"

text \<open>A session of ten minutes, eight of ten right, on 2025-08-18 (UTC).\<close>

definition rec_math :: StudyRecord where
  "rec_math =
     \<lparr>module_r = ''math'', score = 8, total_r = 10, elapsedMs = 600000,
      timestamp = 1755500000000\<rparr>"

text \<open>A record that breaks every constraint of the data model.\<close>

definition rec_odd :: StudyRecord where
  "rec_odd =
     \<lparr>module_r = [], score = 5, total_r = 0, elapsedMs = - 1, timestamp = - 7 / 2\<rparr>"

text \<open>A stored array of one record and one empty object.\<close>

definition ex_mixed :: env where
  "ex_mixed = browser [KEY \<mapsto> Serialized (JArr [recordObject rec_math, JObj []])] 0"

text \<open>A store holding the given records.\<close>

definition store_of :: "StudyRecord list \<Rightarrow> (string \<rightharpoonup> blob)" where
  "store_of rs = [KEY \<mapsto> Serialized (JArr (map recordObject rs))]"









text \<open>A session of \<open>mins\<close> minutes, \<open>days_ago\<close> days before 2025-08-18 06:53:20 UTC.\<close>

definition session_on :: "int \<Rightarrow> int \<Rightarrow> StudyRecord" where
  "session_on days_ago mins =
     \<lparr>module_r = ''math'', score = 8, total_r = 10, elapsedMs = of_int (mins * 60000),
      timestamp = of_int (1755500000000 - days_ago * 86400000)\<rparr>"

text \<open>A week of 5, 0, 3, 4, 0, 6 and 7 minutes, oldest day first.\<close>

definition ex_streak :: env where
  "ex_streak =
     browser (store_of [session_on 6 5, session_on 4 3, session_on 3 4, session_on 1 6,
                        session_on 0 7]) 1755500000000"

text \<open>A session of twenty seconds, \<open>days_ago\<close> days before the same moment.\<close>

definition short_session :: "int \<Rightarrow> StudyRecord" where
  "short_session days_ago =
     \<lparr>module_r = ''logic'', score = 1, total_r = 1, elapsedMs = 20000,
      timestamp = of_int (1755500000000 - days_ago * 86400000)\<rparr>"

definition ex_short_yesterday :: env where
  "ex_short_yesterday = browser (store_of [short_session 1]) 1755500000000"

definition ex_short_now :: env where
  "ex_short_now = browser (store_of [short_session 0]) 1755500000000"

text \<open>One record stored and no unlock map yet, on 2025-08-18.\<close>

definition ex_fresh :: env where
  "ex_fresh = browser (store_of [rec_math]) 1755500000000"

text \<open>No record stored, and an unlock map that binds \<open>starter-1\<close> to the time 1000.\<close>

definition ex_locked :: env where
  "ex_locked = browser [ACH_KEY \<mapsto> Serialized (JObj [(''starter-1'', JNum 1000)])] 1755500000000"

text \<open>One record stored and the same unlock map; then the records cleared.\<close>

definition ex_unlocked_before :: env where
  "ex_unlocked_before =
     browser ((store_of [rec_math])(ACH_KEY \<mapsto> Serialized (JObj [(''starter-1'', JNum 1000)])))
       1755500000000"

definition ex_cleared :: env where
  "ex_cleared = ex_unlocked_before\<lparr>items := (items ex_unlocked_before)(KEY := None)\<rparr>"

text \<open>\<open>clearRecords\<close> called \<open>n\<close> times in a row.\<close>

fun clearRecords_times :: "nat \<Rightarrow> env \<Rightarrow> error + env" where
  "clearRecords_times 0 e = Inr e"
| "clearRecords_times (Suc n) e =
     (case clearRecords e of Inl x \<Rightarrow> Inl x | Inr e' \<Rightarrow> clearRecords_times n e')"

section \<open>Properties of the record store\<close>

lemma getRecords_total: "\<exists>rs. getRecords e = Inr rs"
  by (simp add: getRecords_def split: sum.split)

lemma has_numeric_timestamp_recordObject: "has_numeric_timestamp (recordObject r)"
  by (simp add: has_numeric_timestamp_def recordObject_def get_prop_def typeof_number_def)

lemma asRecord_recordObject: "asRecord (recordObject r) = Some r"
  by (simp add: asRecord_def recordObject_def get_prop_def)

lemma getRecords_numeric:
  assumes "getRecords e = Inr rs"
  shows "list_all has_numeric_timestamp rs"
  using assms
  by (auto simp: getRecords_def getRecords_try_def list_all_iff
      split: if_splits sum.splits)

lemma getRecords_after_write:
  assumes w: "has_window e"
    and s: "localStorage_setItem e KEY (JSON_stringify (JArr xs)) = Inr e'"
  shows "getRecords e' = Inr (filter has_numeric_timestamp xs)"
proof -
  from s have nb: "\<not> storage_blocked e"
    and e': "e' = e\<lparr>items := (items e)(KEY \<mapsto> Serialized (JArr xs))\<rparr>"
    by (auto simp: localStorage_setItem_def JSON_stringify_def split: if_splits)
  show ?thesis
    using w nb
    by (simp add: e' getRecords_def getRecords_try_def localStorage_getItem_def
        no_raw_def JSON_parse_def isArray_def elements_def)
qed

lemma filter_numeric_id:
  assumes "list_all has_numeric_timestamp xs"
  shows "filter has_numeric_timestamp xs = xs"
  using assms by (induction xs) auto

text \<open>
  C1. In a browser (\<open>has_window\<close>) where the write of the new array succeeds, \<open>addRecord r\<close>
  followed by \<open>getRecords\<close> returns a sequence whose last element is \<open>r\<close>, field for field,
  and which is one longer than what \<open>getRecords\<close> returned just before.
\<close>

theorem addRecord_then_getRecords:
  assumes "has_window e"
    and "getRecords e = Inr before"
    and "localStorage_setItem e KEY (JSON_stringify (JArr (before @ [recordObject r]))) = Inr ew"
  shows "\<exists>e' after. addRecord e r = Inr e' \<and> getRecords e' = Inr after
           \<and> last after = recordObject r \<and> asRecord (last after) = Some r
           \<and> length after = length before + 1"
proof -
  have a: "addRecord e r = Inr ew"
    using assms by (simp add: addRecord_def)
  have "list_all has_numeric_timestamp (before @ [recordObject r])"
    using getRecords_numeric [OF assms(2)] has_numeric_timestamp_recordObject by simp
  then have "filter has_numeric_timestamp (before @ [recordObject r]) = before @ [recordObject r]"
    by (rule filter_numeric_id)
  with getRecords_after_write [OF assms(1) assms(3)]
  have g: "getRecords ew = Inr (before @ [recordObject r])" by simp
  show ?thesis
    using a g by (simp add: asRecord_recordObject)
qed

theorem addRecord_then_getRecords_witness:
  "has_window (browser Map.empty 0) \<and> getRecords (browser Map.empty 0) = Inr []
   \<and> (\<exists>e' after. addRecord (browser Map.empty 0) rec_math = Inr e' \<and> getRecords e' = Inr after
         \<and> last after = recordObject rec_math \<and> asRecord (last after) = Some rec_math
         \<and> length after = length ([] :: json list) + 1)"
proof -
  let ?e = "browser Map.empty 0"
  let ?ew = "?e\<lparr>items := (items ?e)(KEY \<mapsto> Serialized (JArr ([] @ [recordObject rec_math])))\<rparr>"
  have w: "has_window ?e" by (simp add: browser_def)
  have g: "getRecords ?e = Inr []"
    by (simp add: browser_def getRecords_def getRecords_try_def localStorage_getItem_def no_raw_def)
  have s: "localStorage_setItem ?e KEY (JSON_stringify (JArr ([] @ [recordObject rec_math]))) = Inr ?ew"
    by (simp add: browser_def localStorage_setItem_def JSON_stringify_def)
  show ?thesis
    using w g addRecord_then_getRecords [OF w g s] by simp
qed

text \<open>
  C10. \<open>addRecord\<close> checks nothing about its argument. For every record, whatever its
  field values, and in every environment, it returns normally; when the environment lets
  the write happen (a window, storage that can be reached, quota for the new string) the
  string written is the array read before with the record at its end, and \<open>getRecords\<close>
  then returns exactly that: the earlier elements as they were and the record itself,
  unchanged. Otherwise nothing is written.
\<close>

theorem addRecord_no_validation:
  "\<exists>before e'. getRecords e = Inr before \<and> addRecord e r = Inr e'
     \<and> (if has_window e \<and> \<not> storage_blocked e
            \<and> quota_allows e KEY (JSON_stringify (JArr (before @ [recordObject r])))
         then items e' KEY = Some (JSON_stringify (JArr (before @ [recordObject r])))
              \<and> getRecords e' = Inr (before @ [recordObject r])
              \<and> asRecord (last (before @ [recordObject r])) = Some r
         else e' = e)"
proof -
  obtain before where b: "getRecords e = Inr before"
    using getRecords_total by blast
  let ?new = "JSON_stringify (JArr (before @ [recordObject r]))"
  show ?thesis
  proof (cases "has_window e \<and> \<not> storage_blocked e \<and> quota_allows e KEY ?new")
    case True
    let ?ew = "e\<lparr>items := (items e)(KEY \<mapsto> ?new)\<rparr>"
    have s: "localStorage_setItem e KEY ?new = Inr ?ew"
      using True by (simp add: localStorage_setItem_def)
    have a: "addRecord e r = Inr ?ew"
      using True b s by (simp add: addRecord_def)
    have "list_all has_numeric_timestamp (before @ [recordObject r])"
      using getRecords_numeric [OF b] has_numeric_timestamp_recordObject by simp
    then have "filter has_numeric_timestamp (before @ [recordObject r]) = before @ [recordObject r]"
      by (rule filter_numeric_id)
    then have g: "getRecords ?ew = Inr (before @ [recordObject r])"
      using getRecords_after_write [of e "before @ [recordObject r]" ?ew] True s by simp
    show ?thesis
      using True b a g by (intro exI [of _ before] exI [of _ ?ew] conjI)
        (simp_all add: asRecord_recordObject)
  next
    case False
    have "localStorage_setItem e KEY ?new = Inl SecurityError
          \<or> localStorage_setItem e KEY ?new = Inl QuotaExceededError \<or> \<not> has_window e"
      using False by (auto simp: localStorage_setItem_def)
    then have a: "addRecord e r = Inr e"
      using b by (auto simp: addRecord_def)
    show ?thesis
      using False b a by (intro exI [of _ before] exI [of _ e] conjI) simp_all
  qed
qed

theorem addRecord_no_validation_witness:
  "score rec_odd > total_r rec_odd \<and> total_r rec_odd = 0 \<and> elapsedMs rec_odd < 0
   \<and> getRecords (browser (store_of [rec_math]) 0) = Inr [recordObject rec_math]
   \<and> (\<exists>e'. addRecord (browser (store_of [rec_math]) 0) rec_odd = Inr e'
         \<and> getRecords e' = Inr [recordObject rec_math, recordObject rec_odd])"
proof -
  let ?e = "browser (store_of [rec_math]) 0"
  have g: "getRecords ?e = Inr [recordObject rec_math]"
    by (simp add: browser_def store_of_def getRecords_def getRecords_try_def
        localStorage_getItem_def no_raw_def JSON_parse_def isArray_def elements_def
        has_numeric_timestamp_recordObject)
  have c: "has_window ?e \<and> \<not> storage_blocked ?e
      \<and> quota_allows ?e KEY (JSON_stringify (JArr ([recordObject rec_math] @ [recordObject rec_odd])))"
    by (simp add: browser_def)
  from addRecord_no_validation [of ?e rec_odd] obtain before e' where
    b: "getRecords ?e = Inr before" and a: "addRecord ?e rec_odd = Inr e'"
    and i: "if has_window ?e \<and> \<not> storage_blocked ?e
            \<and> quota_allows ?e KEY (JSON_stringify (JArr (before @ [recordObject rec_odd])))
         then items e' KEY = Some (JSON_stringify (JArr (before @ [recordObject rec_odd])))
              \<and> getRecords e' = Inr (before @ [recordObject rec_odd])
              \<and> asRecord (last (before @ [recordObject rec_odd])) = Some rec_odd
         else e' = ?e"
    by (elim exE conjE)
  have bb: "before = [recordObject rec_math]"
    using b g by simp
  have "getRecords e' = Inr [recordObject rec_math, recordObject rec_odd]"
    using i c by (simp add: bb)
  then have x: "\<exists>e'. addRecord ?e rec_odd = Inr e'
         \<and> getRecords e' = Inr [recordObject rec_math, recordObject rec_odd]"
    using a by (intro exI [of _ e'] conjI)
  have o: "score rec_odd > total_r rec_odd \<and> total_r rec_odd = 0 \<and> elapsedMs rec_odd < 0"
    by (simp add: rec_odd_def)
  show ?thesis
    using o g x by (intro conjI) (erule conjunct1 conjunct2 | assumption | simp)+
qed

text \<open>
  C7. When the string stored under the records key is not valid JSON, or is valid JSON that
  is not an array, \<open>getRecords\<close> returns the empty sequence and does not throw.
\<close>

theorem getRecords_corrupt:
  assumes "items e KEY = Some raw"
    and "(\<exists>x. JSON_parse raw = Inl x) \<or> (\<exists>v. JSON_parse raw = Inr v \<and> \<not> isArray v)"
  shows "getRecords e = Inr []"
  using assms
  by (auto simp: getRecords_def getRecords_try_def localStorage_getItem_def
      split: sum.splits)

theorem getRecords_corrupt_witness:
  "getRecords (browser [KEY \<mapsto> Malformed ''{oops''] 0) = Inr []
   \<and> getRecords (browser [KEY \<mapsto> Serialized (JObj [(''timestamp'', JNum 1)])] 0) = Inr []"
proof -
  have 1: "getRecords (browser [KEY \<mapsto> Malformed ''{oops''] 0) = Inr []"
    using getRecords_corrupt [of "browser [KEY \<mapsto> Malformed ''{oops''] 0" "Malformed ''{oops''"]
    by (simp add: browser_def JSON_parse_def)
  have 2: "getRecords (browser [KEY \<mapsto> Serialized (JObj [(''timestamp'', JNum 1)])] 0) = Inr []"
    using getRecords_corrupt [of "browser [KEY \<mapsto> Serialized (JObj [(''timestamp'', JNum 1)])] 0"
        "Serialized (JObj [(''timestamp'', JNum 1)])"]
    by (simp add: browser_def JSON_parse_def isArray_def)
  show ?thesis using 1 2 by simp
qed

text \<open>
  C8, as stated, fails: an array holding one record and one empty object is read as the
  one record, not as the empty sequence.
\<close>

theorem getRecords_mixed_array_counterexample:
  "items ex_mixed KEY = Some (Serialized (JArr [recordObject rec_math, JObj []]))
   \<and> \<not> has_numeric_timestamp (JObj [])
   \<and> getRecords ex_mixed = Inr [recordObject rec_math]
   \<and> getRecords ex_mixed \<noteq> Inr []"
  by (simp add: ex_mixed_def browser_def getRecords_def getRecords_try_def localStorage_getItem_def
      no_raw_def JSON_parse_def isArray_def elements_def has_numeric_timestamp_recordObject)
    (simp add: has_numeric_timestamp_def get_prop_def typeof_number_def)

text \<open>
  C8, amended. In a browser whose storage can be read, when the stored string parses to an
  array, \<open>getRecords\<close> returns the elements that have a numeric \<open>timestamp\<close>, in their
  order, and drops the others; the result is empty exactly when no element has one.
\<close>

theorem getRecords_filters:
  assumes "has_window e" and "\<not> storage_blocked e"
    and "items e KEY = Some (Serialized (JArr xs))"
  shows "getRecords e = Inr (filter has_numeric_timestamp xs)
         \<and> (getRecords e = Inr [] \<longleftrightarrow> (\<forall>x \<in> set xs. \<not> has_numeric_timestamp x))"
proof -
  have g: "getRecords e = Inr (filter has_numeric_timestamp xs)"
    using assms
    by (simp add: getRecords_def getRecords_try_def localStorage_getItem_def no_raw_def
        JSON_parse_def isArray_def elements_def)
  show ?thesis
    by (simp add: g filter_empty_conv)
qed

theorem getRecords_filters_witness:
  "getRecords (browser [KEY \<mapsto> Serialized (JArr [JNull, recordObject rec_math, JObj []])] 0)
     = Inr [recordObject rec_math]"
  using getRecords_filters [of "browser [KEY \<mapsto> Serialized (JArr [JNull, recordObject rec_math, JObj []])] 0"
      "[JNull, recordObject rec_math, JObj []]"]
  by (simp add: browser_def has_numeric_timestamp_recordObject)
    (simp add: has_numeric_timestamp_def get_prop_def typeof_number_def)

lemma clearRecords_cases:
  "clearRecords e = Inr e \<and> (\<not> has_window e \<or> storage_blocked e)
   \<or> clearRecords e = Inr (e\<lparr>items := (items e)(KEY := None)\<rparr>) \<and> has_window e \<and> \<not> storage_blocked e"
  by (simp add: clearRecords_def localStorage_removeItem_def)

lemma getRecords_after_clear:
  assumes "clearRecords e = Inr e'"
  shows "getRecords e' = Inr []"
  using assms clearRecords_cases [of e]
  by (auto simp: getRecords_def getRecords_try_def localStorage_getItem_def no_raw_def)

lemma clearRecords_only_records:
  assumes "clearRecords e = Inr e'"
  shows "e' = e \<or> e' = e\<lparr>items := (items e)(KEY := None)\<rparr>"
  using assms clearRecords_cases [of e] by auto

lemma KEY_neq_ACH_KEY: "ACH_KEY \<noteq> KEY"
  by (simp add: KEY_def ACH_KEY_def)

lemma clearRecords_keeps_achievements:
  assumes "clearRecords e = Inr e'"
  shows "items e' ACH_KEY = items e ACH_KEY"
  using clearRecords_only_records [OF assms] KEY_neq_ACH_KEY by auto

lemma clearRecords_total: "\<exists>e'. clearRecords e = Inr e'"
  using clearRecords_cases [of e] by auto

lemma clearRecords_times_Suc:
  "\<exists>e'. clearRecords_times (Suc n) e = Inr e' \<and> getRecords e' = Inr []
        \<and> items e' ACH_KEY = items e ACH_KEY"
proof (induction n arbitrary: e)
  case 0
  obtain e1 where c: "clearRecords e = Inr e1" using clearRecords_total by blast
  show ?case
    using c getRecords_after_clear [OF c] clearRecords_keeps_achievements [OF c] by simp
next
  case (Suc n)
  obtain e1 where c: "clearRecords e = Inr e1" using clearRecords_total by blast
  from Suc.IH [of e1] obtain e' where
    "clearRecords_times (Suc n) e1 = Inr e'" "getRecords e' = Inr []"
    "items e' ACH_KEY = items e1 ACH_KEY" by blast
  then show ?case
    using c clearRecords_keeps_achievements [OF c] by simp
qed

text \<open>
  C9. \<open>clearRecords\<close> never throws, on an empty store or any other; it leaves the
  environment as it is or removes the records slot and nothing else; after one or more
  calls in a row \<open>getRecords\<close> returns the empty sequence, and the achievements slot holds
  what it held before.
\<close>

theorem clearRecords_frame:
  "(\<exists>e'. clearRecords e = Inr e' \<and> (e' = e \<or> e' = e\<lparr>items := (items e)(KEY := None)\<rparr>))
   \<and> (\<exists>e'. clearRecords_times (Suc n) e = Inr e' \<and> getRecords e' = Inr []
          \<and> items e' ACH_KEY = items e ACH_KEY)"
  using clearRecords_total [of e] clearRecords_only_records [of e] clearRecords_times_Suc [of n e]
  by blast

section \<open>Properties of the weekly summary\<close>

lemma foldl_add_sum_list:
  fixes a :: "'b::monoid_add"
  shows "foldl (\<lambda>s d. s + f d) a xs = a + sum_list (map f xs)"
  by (induction xs arbitrary: a) (simp_all add: add.assoc)

lemma those_map_Some:
  assumes "\<forall>x \<in> set xs. f x \<noteq> None"
  shows "those (map f xs) = Some (map (\<lambda>x. the (f x)) xs)"
  using assms by (induction xs) auto

lemma init_byDay_fold:
  "foldl (\<lambda>byDay l. byDay(key l \<mapsto> zero_bucket)) m labels k =
     (if k \<in> key ` set labels then Some zero_bucket else m k)"
  by (induction labels arbitrary: m) auto

lemma init_byDay_apply:
  "init_byDay labels k = (if k \<in> key ` set labels then Some zero_bucket else None)"
  by (simp add: init_byDay_def init_byDay_fold)

lemma add_to_day_fold_Some:
  "byDay k = Some b \<Longrightarrow>
   foldl (add_to_day e) byDay rs k =
     Some \<lparr>bminutes = bminutes b + sum_list (map weekly_minutes_of (day_records e k rs)),
           bcorrect = foldl fadd (bcorrect b) (map score (day_records e k rs)),
           btotal = foldl fadd (btotal b) (map total_r (day_records e k rs))\<rparr>"
proof (induction rs arbitrary: byDay b)
  case Nil then show ?case by (simp add: day_records_def)
next
  case (Cons r rs)
  show ?case
  proof (cases "toDateKey e (timestamp r) = k")
    case True
    let ?b = "\<lparr>bminutes = bminutes b + weekly_minutes_of r,
                bcorrect = fadd (bcorrect b) (score r), btotal = fadd (btotal b) (total_r r)\<rparr>"
    have "add_to_day e byDay r k = Some ?b"
      using True Cons.prems by (simp add: add_to_day_def Let_def)
    then have "foldl (add_to_day e) (add_to_day e byDay r) rs k =
       Some \<lparr>bminutes = bminutes ?b + sum_list (map weekly_minutes_of (day_records e k rs)),
             bcorrect = foldl fadd (bcorrect ?b) (map score (day_records e k rs)),
             btotal = foldl fadd (btotal ?b) (map total_r (day_records e k rs))\<rparr>"
      by (rule Cons.IH)
    then show ?thesis
      using True by (simp add: day_records_def add.assoc)
  next
    case False
    have "add_to_day e byDay r k = Some b"
      using False Cons.prems by (auto simp: add_to_day_def Let_def split: option.splits)
    then have "foldl (add_to_day e) (add_to_day e byDay r) rs k =
       Some \<lparr>bminutes = bminutes b + sum_list (map weekly_minutes_of (day_records e k rs)),
             bcorrect = foldl fadd (bcorrect b) (map score (day_records e k rs)),
             btotal = foldl fadd (btotal b) (map total_r (day_records e k rs))\<rparr>"
      by (rule Cons.IH)
    then show ?thesis
      using False by (simp add: day_records_def)
  qed
qed

lemma byDay_final:
  assumes "k \<in> key ` set labels"
  shows "foldl (add_to_day e) (init_byDay labels) rs k =
     Some \<lparr>bminutes = sum_list (map weekly_minutes_of (day_records e k rs)),
           bcorrect = fsum (map score (day_records e k rs)),
           btotal = fsum (map total_r (day_records e k rs))\<rparr>"
proof -
  have "init_byDay labels k = Some zero_bucket"
    using assms by (simp add: init_byDay_apply)
  then show ?thesis
    using add_to_day_fold_Some [of "init_byDay labels" k zero_bucket e rs]
    by (simp add: zero_bucket_def fsum_def)
qed

lemma weekly_entry_final:
  assumes "l \<in> set labels"
  shows "weekly_entry (foldl (add_to_day e) (init_byDay labels) rs) l = Some (day_entry e rs l)"
proof -
  have k: "key l \<in> key ` set labels" using assms by simp
  have m: "weekly_minutes_of = (\<lambda>r. max 0 (Math_round (elapsedMs r / 60000)))"
    by (rule ext) (simp add: weekly_minutes_of_def)
  from byDay_final [OF k, of e rs] show ?thesis
    by (simp add: weekly_entry_def day_entry_def day_correct_def day_total_def Let_def m)
qed

lemma weeklySummaryOf_eq:
  "weeklySummaryOf e rs = Inr (summarize (map (day_entry e rs) (getLast7DayLabels e)))"
proof -
  let ?labels = "getLast7DayLabels e"
  let ?byDay = "foldl (add_to_day e) (init_byDay ?labels) rs"
  have "\<forall>l \<in> set ?labels. weekly_entry ?byDay l \<noteq> None"
    by (simp add: weekly_entry_final)
  then have "those (map (weekly_entry ?byDay) ?labels) = Some (map (\<lambda>l. the (weekly_entry ?byDay l)) ?labels)"
    by (rule those_map_Some)
  also have "map (\<lambda>l. the (weekly_entry ?byDay l)) ?labels = map (day_entry e rs) ?labels"
    by (rule map_cong) (simp_all add: weekly_entry_final)
  finally show ?thesis
    by (simp add: weeklySummaryOf_def Let_def)
qed

lemma length_getLast7DayLabels: "length (getLast7DayLabels e) = 7"
  by (simp add: getLast7DayLabels_def)

lemma streak_loop_takeWhile:
  "n \<le> length w \<Longrightarrow>
   streak_loop w n s = s + length (takeWhile (\<lambda>d. minutes d > 0) (rev (take n w)))"
proof (induction n arbitrary: s)
  case 0 then show ?case by simp
next
  case (Suc i)
  then have i: "i < length w" by simp
  have t: "take (Suc i) w = take i w @ [w ! i]"
    using i by (simp add: take_Suc_conv_app_nth)
  show ?case
    using Suc.IH [of "s + 1"] i by (simp add: t)
qed

lemma streakDays_summarize:
  "streakDays (summarize w) = length (takeWhile (\<lambda>m. m > 0) (rev (map minutes w)))"
proof -
  have "streakDays (summarize w) = streak_loop w (length w) 0"
    by (simp add: summarize_def Let_def)
  also have "\<dots> = length (takeWhile (\<lambda>d. minutes d > 0) (rev w))"
    using streak_loop_takeWhile [of "length w" w 0] by simp
  also have "\<dots> = length (takeWhile (\<lambda>m. m > 0) (rev (map minutes w)))"
    by (simp add: rev_map takeWhile_map comp_def)
  finally show ?thesis .
qed








lemma floor_rat_numeral_div [simp]:
  "\<lfloor>numeral a / numeral b :: rat\<rfloor> = numeral a div numeral b"
  using floor_divide_of_int_eq [of "numeral a" "numeral b", where ?'a = rat] by simp

lemma floor_rat_one_div [simp]:
  "\<lfloor>1 / numeral b :: rat\<rfloor> = 1 div numeral b"
  using floor_divide_of_int_eq [of 1 "numeral b", where ?'a = rat] by simp




lemma getWeekly_eq:
  assumes "typedRecords e = Inr records"
  shows "getWeeklySummaryFromStorage e =
     Inr (summarize (map (day_entry e records) (getLast7DayLabels e)))"
  using assms by (simp add: getWeeklySummaryFromStorage_def weeklySummaryOf_eq)

lemma weekly_summarize: "weekly (summarize w) = w"
  by (simp add: summarize_def Let_def)






lemma minutes_day_entry:
  "minutes (day_entry e rs l) =
     sum_list (map (\<lambda>r. max 0 (Math_round (elapsedMs r / 60000))) (day_records e (key l) rs))"
  by (simp add: day_entry_def Let_def)

lemma streak_zero_today:
  assumes "w \<noteq> []" and "minutes (last w) = 0"
  shows "takeWhile (\<lambda>m. m > 0) (rev (map minutes w)) = []"
proof -
  have "hd (rev (map minutes w)) = minutes (last w)"
    using assms(1) by (simp add: hd_rev last_map)
  then show ?thesis
    using assms by (simp add: takeWhile_eq_Nil_iff)
qed

lemma ex_streak_values:
  "map_sum id (\<lambda>s. map minutes (weekly s)) (getWeeklySummaryFromStorage ex_streak)
     = Inr [5, 0, 3, 4, 0, 6, 7]"
  by code_simp

lemma ex_streak_typed:
  "typedRecords ex_streak
     = Inr [session_on 6 5, session_on 4 3, session_on 3 4, session_on 1 6, session_on 0 7]"
  by code_simp

text \<open>
  C5. For a store of typed records, \<open>streakDays\<close> is the number of day buckets with
  \<open>minutes > 0\<close> counted backward from the last of the seven buckets, which is today's
  (the buckets are those of 6, 5, ... 0 days before today, in this order), up to the first
  bucket of zero minutes. Buckets of 5, 0, 3, 4, 0, 6, 7 minutes give 2, and zero minutes
  today give 0.
\<close>

theorem weekly_streakDays:
  assumes "typedRecords e = Inr records"
  shows "\<exists>s. getWeeklySummaryFromStorage e = Inr s
     \<and> length (weekly s) = 7
     \<and> map minutes (weekly s) =
         map (\<lambda>i. sum_list (map (\<lambda>r. max 0 (Math_round (elapsedMs r / 60000)))
                               (day_records e (key (label_for e i)) records)))
             [6, 5, 4, 3, 2, 1, 0]
     \<and> streakDays s = length (takeWhile (\<lambda>m. m > 0) (rev (map minutes (weekly s))))
     \<and> (map minutes (weekly s) = [5, 0, 3, 4, 0, 6, 7] \<longrightarrow> streakDays s = 2)
     \<and> (minutes (last (weekly s)) = 0 \<longrightarrow> streakDays s = 0)"
proof -
  let ?w = "map (day_entry e records) (getLast7DayLabels e)"
  have g: "getWeeklySummaryFromStorage e = Inr (summarize ?w)"
    by (rule getWeekly_eq [OF assms])
  have l: "length ?w = 7"
    by (simp add: length_getLast7DayLabels)
  then have ne: "?w \<noteq> []" by auto
  have m: "map minutes ?w =
         map (\<lambda>i. sum_list (map (\<lambda>r. max 0 (Math_round (elapsedMs r / 60000)))
                               (day_records e (key (label_for e i)) records)))
             [6, 5, 4, 3, 2, 1, 0]"
    by (simp add: getLast7DayLabels_def minutes_day_entry)
  have t: "streakDays (summarize ?w) = length (takeWhile (\<lambda>m. m > 0) (rev (map minutes ?w)))"
    by (rule streakDays_summarize)
  have x: "map minutes ?w = [5, 0, 3, 4, 0, 6, 7] \<longrightarrow> streakDays (summarize ?w) = 2"
    by (simp add: t)
  have z: "minutes (last ?w) = 0 \<longrightarrow> streakDays (summarize ?w) = 0"
    using streak_zero_today [OF ne] by (simp add: t)
  show ?thesis
  proof (intro exI conjI)
    show "getWeeklySummaryFromStorage e = Inr (summarize ?w)" by (rule g)
    show "length (weekly (summarize ?w)) = 7" unfolding weekly_summarize by (rule l)
    show "map minutes (weekly (summarize ?w)) =
         map (\<lambda>i. sum_list (map (\<lambda>r. max 0 (Math_round (elapsedMs r / 60000)))
                               (day_records e (key (label_for e i)) records)))
             [6, 5, 4, 3, 2, 1, 0]"
      unfolding weekly_summarize by (rule m)
    show "streakDays (summarize ?w)
        = length (takeWhile (\<lambda>m. m > 0) (rev (map minutes (weekly (summarize ?w)))))"
      unfolding weekly_summarize by (rule t)
    show "map minutes (weekly (summarize ?w)) = [5, 0, 3, 4, 0, 6, 7]
        \<longrightarrow> streakDays (summarize ?w) = 2"
      unfolding weekly_summarize by (rule x)
    show "minutes (last (weekly (summarize ?w))) = 0 \<longrightarrow> streakDays (summarize ?w) = 0"
      unfolding weekly_summarize by (rule z)
  qed
qed

lemma ex_locked_week:
  "typedRecords ex_locked = Inr []
   \<and> map_sum id (\<lambda>s. map minutes (weekly s)) (getWeeklySummaryFromStorage ex_locked)
       = Inr [0, 0, 0, 0, 0, 0, 0]"
  by code_simp

theorem weekly_streakDays_witness:
  "(\<exists>s. getWeeklySummaryFromStorage ex_streak = Inr s
      \<and> map minutes (weekly s) = [5, 0, 3, 4, 0, 6, 7] \<and> streakDays s = 2)
   \<and> (\<exists>s. getWeeklySummaryFromStorage ex_locked = Inr s
      \<and> minutes (last (weekly s)) = 0 \<and> streakDays s = 0)"
proof (rule conjI)
  from weekly_streakDays [OF ex_streak_typed] obtain s where
    s: "getWeeklySummaryFromStorage ex_streak = Inr s"
    and x: "map minutes (weekly s) = [5, 0, 3, 4, 0, 6, 7] \<longrightarrow> streakDays s = 2"
    by (elim exE conjE)
  have w: "map minutes (weekly s) = [5, 0, 3, 4, 0, 6, 7]"
    using ex_streak_values s by simp
  from x w have "streakDays s = 2" by (rule mp)
  with s w show "\<exists>s. getWeeklySummaryFromStorage ex_streak = Inr s
      \<and> map minutes (weekly s) = [5, 0, 3, 4, 0, 6, 7] \<and> streakDays s = 2"
    by (intro exI [of _ s] conjI)
next
  have t: "typedRecords ex_locked = Inr []"
    using ex_locked_week by (rule conjunct1)
  from weekly_streakDays [OF t] obtain s where
    s: "getWeeklySummaryFromStorage ex_locked = Inr s"
    and l: "length (weekly s) = 7"
    and z: "minutes (last (weekly s)) = 0 \<longrightarrow> streakDays s = 0"
    by (elim exE conjE)
  have w: "map minutes (weekly s) = [0, 0, 0, 0, 0, 0, 0]"
    using ex_locked_week s by simp
  have ne: "weekly s \<noteq> []" using l by auto
  have "minutes (last (weekly s)) = last (map minutes (weekly s))"
    using ne by (simp add: last_map)
  then have m: "minutes (last (weekly s)) = 0"
    by (simp add: w)
  from z m have "streakDays s = 0" by (rule mp)
  with s m show "\<exists>s. getWeeklySummaryFromStorage ex_locked = Inr s
      \<and> minutes (last (weekly s)) = 0 \<and> streakDays s = 0"
    by (intro exI [of _ s] conjI)
qed

section \<open>Minutes per record: the weekly summary and the views of today\<close>

lemma recordsToday_eq:
  assumes "typedRecords e = Inr records"
  shows "recordsToday e =
     Inr (filter (\<lambda>r. toDateKey e (timestamp r) = toDateKey e (of_int (now e)))
            (filter (\<lambda>r. timestamp r \<ge> of_int (now e) \<and> timestamp r \<le> of_int (now e)) records))"
  using assms by (simp add: recordsToday_def getRecordsWithinDays_def Let_def)

lemma filter_module_none:
  "k \<notin> module_r ` set rs \<Longrightarrow> filter (\<lambda>r. module_r r = k) rs = []"
  by (induction rs) auto

lemma map_of_group_fold:
  "map_of (foldl group_add g rs) m =
     (if m \<in> module_r ` set rs
      then Some ((case map_of g m of None \<Rightarrow> 0 | Some n \<Rightarrow> n)
                 + sum_list (map today_minutes_of (filter (\<lambda>r. module_r r = m) rs)))
      else map_of g m)"
proof (induction rs arbitrary: g)
  case Nil
  then show ?case by simp
next
  case (Cons r rs)
  have u: "map_of (group_add g r) =
      (map_of g)(module_r r \<mapsto> (case map_of g (module_r r) of None \<Rightarrow> 0 | Some n \<Rightarrow> n)
                                   + today_minutes_of r)"
    by (simp add: group_add_def Let_def update_conv')
  show ?case
    by (simp add: Cons.IH [of "group_add g r"] u filter_module_none split: option.splits)
qed

lemma short_session_minutes:
  assumes "elapsedMs r < 30000"
  shows "max 0 (Math_round (elapsedMs r / 60000)) = 0 \<and> max 1 (Math_round (elapsedMs r / 60000)) = 1"
proof -
  have "elapsedMs r / 60000 + 1 / 2 < 1"
    using assms by simp
  then have "\<lfloor>elapsedMs r / 60000 + 1 / 2\<rfloor> < 1"
    by (simp add: floor_less_iff)
  then show ?thesis
    by (simp add: Math_round_def)
qed

lemma ex_short_now_values:
  "typedRecords ex_short_now = Inr [short_session 0]
   \<and> map_sum id (\<lambda>s. map minutes (weekly s)) (getWeeklySummaryFromStorage ex_short_now)
       = Inr [0, 0, 0, 0, 0, 0, 0]
   \<and> todayStats_minutes ex_short_now = Inr 1
   \<and> todayGroups ex_short_now = Inr [(''logic'', 1)]"
  by code_simp

text \<open>
  C6, as stated, fails: a record of twenty seconds made yesterday falls on a tracked day,
  and the views of today count no minute for it.
\<close>

theorem short_record_yesterday_counterexample:
  "elapsedMs (short_session 1) < 30000
   \<and> typedRecords ex_short_yesterday = Inr [short_session 1]
   \<and> toDateKey ex_short_yesterday (timestamp (short_session 1))
       = key (label_for ex_short_yesterday 1)
   \<and> todayStats_minutes ex_short_yesterday = Inr 0
   \<and> todayBreakdown ex_short_yesterday = Inr []"
  by code_simp

text \<open>
  C6, amended. For a store of typed records: each day bucket of the weekly summary holds
  \<open>max(0, round(elapsedMs / 60000))\<close> minutes for each record of that day; today's
  minutes and each module's minutes in today's breakdown hold
  \<open>max(1, round(elapsedMs / 60000))\<close> for each record these views count; and a record
  with \<open>elapsedMs < 30000\<close> is worth 0 minutes in the first and 1 minute in the second.
\<close>

theorem minutes_per_record:
  assumes "typedRecords e = Inr records"
  shows "\<exists>s today grp.
      getWeeklySummaryFromStorage e = Inr s
    \<and> map minutes (weekly s) =
        map (\<lambda>l. sum_list (map (\<lambda>r. max 0 (Math_round (elapsedMs r / 60000)))
                              (day_records e (key l) records)))
            (getLast7DayLabels e)
    \<and> recordsToday e = Inr today
    \<and> todayStats_minutes e
        = Inr (sum_list (map (\<lambda>r. max 1 (Math_round (elapsedMs r / 60000))) today))
    \<and> todayGroups e = Inr grp
    \<and> (\<forall>m. map_of grp m =
          (if m \<in> module_r ` set today
           then Some (sum_list (map (\<lambda>r. max 1 (Math_round (elapsedMs r / 60000)))
                                    (filter (\<lambda>r. module_r r = m) today)))
           else None))
    \<and> (\<forall>r. elapsedMs r < 30000 \<longrightarrow>
          max 0 (Math_round (elapsedMs r / 60000)) = 0
          \<and> max 1 (Math_round (elapsedMs r / 60000)) = 1)"
proof -
  let ?w = "map (day_entry e records) (getLast7DayLabels e)"
  let ?today = "filter (\<lambda>r. toDateKey e (timestamp r) = toDateKey e (of_int (now e)))
            (filter (\<lambda>r. timestamp r \<ge> of_int (now e) \<and> timestamp r \<le> of_int (now e)) records)"
  have tm: "today_minutes_of = (\<lambda>r. max 1 (Math_round (elapsedMs r / 60000)))"
    by (rule ext) (simp add: today_minutes_of_def)
  have g: "getWeeklySummaryFromStorage e = Inr (summarize ?w)"
    by (rule getWeekly_eq [OF assms])
  have m: "map minutes ?w =
        map (\<lambda>l. sum_list (map (\<lambda>r. max 0 (Math_round (elapsedMs r / 60000)))
                              (day_records e (key l) records)))
            (getLast7DayLabels e)"
    by (simp add: minutes_day_entry)
  have r: "recordsToday e = Inr ?today"
    by (rule recordsToday_eq [OF assms])
  have t: "todayStats_minutes e
        = Inr (sum_list (map (\<lambda>r. max 1 (Math_round (elapsedMs r / 60000))) ?today))"
    by (simp add: todayStats_minutes_def r foldl_add_sum_list tm)
  have q: "todayGroups e = Inr (foldl group_add [] ?today)"
    by (simp add: todayGroups_def r)
  have p: "\<forall>m. map_of (foldl group_add [] ?today) m =
          (if m \<in> module_r ` set ?today
           then Some (sum_list (map (\<lambda>r. max 1 (Math_round (elapsedMs r / 60000)))
                                    (filter (\<lambda>r. module_r r = m) ?today)))
           else None)"
    by (simp only: map_of_group_fold tm) simp
  have z: "\<forall>r. elapsedMs r < 30000 \<longrightarrow>
          max 0 (Math_round (elapsedMs r / 60000)) = 0
          \<and> max 1 (Math_round (elapsedMs r / 60000)) = 1"
    using short_session_minutes by (intro allI impI)
  show ?thesis
  proof (intro exI conjI)
    show "getWeeklySummaryFromStorage e = Inr (summarize ?w)" by (rule g)
    show "map minutes (weekly (summarize ?w)) =
        map (\<lambda>l. sum_list (map (\<lambda>r. max 0 (Math_round (elapsedMs r / 60000)))
                              (day_records e (key l) records)))
            (getLast7DayLabels e)"
      unfolding weekly_summarize by (rule m)
    show "recordsToday e = Inr ?today" by (rule r)
    show "todayStats_minutes e
        = Inr (sum_list (map (\<lambda>r. max 1 (Math_round (elapsedMs r / 60000))) ?today))"
      by (rule t)
    show "todayGroups e = Inr (foldl group_add [] ?today)" by (rule q)
    show "\<forall>m. map_of (foldl group_add [] ?today) m =
          (if m \<in> module_r ` set ?today
           then Some (sum_list (map (\<lambda>r. max 1 (Math_round (elapsedMs r / 60000)))
                                    (filter (\<lambda>r. module_r r = m) ?today)))
           else None)"
      by (rule p)
    show "\<forall>r. elapsedMs r < 30000 \<longrightarrow>
          max 0 (Math_round (elapsedMs r / 60000)) = 0
          \<and> max 1 (Math_round (elapsedMs r / 60000)) = 1"
      by (rule z)
  qed
qed

theorem minutes_per_record_witness:
  "elapsedMs (short_session 0) < 30000
   \<and> (\<exists>s. getWeeklySummaryFromStorage ex_short_now = Inr s
         \<and> map minutes (weekly s) = [0, 0, 0, 0, 0, 0, 0])
   \<and> todayStats_minutes ex_short_now = Inr 1
   \<and> todayGroups ex_short_now = Inr [(''logic'', 1)]"
proof -
  have h: "typedRecords ex_short_now = Inr [short_session 0]"
    using ex_short_now_values by (rule conjunct1)
  from minutes_per_record [OF h] obtain s where
    s: "getWeeklySummaryFromStorage ex_short_now = Inr s"
    by (elim exE conjE)
  have w: "map minutes (weekly s) = [0, 0, 0, 0, 0, 0, 0]"
    using ex_short_now_values s by simp
  have e: "elapsedMs (short_session 0) < 30000"
    by (simp add: short_session_def)
  have x: "\<exists>s. getWeeklySummaryFromStorage ex_short_now = Inr s
         \<and> map minutes (weekly s) = [0, 0, 0, 0, 0, 0, 0]"
    using s w by (intro exI [of _ s] conjI)
  show ?thesis
    using e x ex_short_now_values by (intro conjI) (erule conjunct1 conjunct2 | assumption | simp)+
qed

section \<open>Properties of the unlock ledger\<close>

lemma obj_get_obj_set:
  "obj_get (obj_set m k' x) k = (if k = k' then Some x else obj_get m k)"
  by (cases m) (simp_all add: obj_get_def obj_set_def update_conv')

lemma badge_step_keeps:
  assumes "obj_get (fst st) k = Some v" and "truthy v"
  shows "obj_get (fst (badge_step e stats st b)) k = Some v"
proof (cases "badge_id b = k")
  case True
  then have "truthy_opt (obj_get (fst st) (badge_id b))"
    using assms by (simp add: truthy_opt_def)
  then show ?thesis
    using assms(1) by (simp add: badge_step_def Let_def)
next
  case False
  then show ?thesis
    using assms(1) by (simp add: badge_step_def Let_def obj_get_obj_set)
qed

lemma fold_badge_step_keeps:
  assumes "obj_get (fst st) k = Some v" and "truthy v"
  shows "obj_get (fst (foldl (badge_step e stats) st bs)) k = Some v"
  using assms(1)
proof (induction bs arbitrary: st)
  case Nil
  then show ?case by simp
next
  case (Cons b bs)
  have "obj_get (fst (badge_step e stats st b)) k = Some v"
    using Cons.prems assms(2) by (rule badge_step_keeps)
  then show ?case
    using Cons.IH [of "badge_step e stats st b"] by simp
qed

lemma is_plain_obj_set: "is_plain (obj_set m k x) = is_plain m"
  by (cases m) (simp_all add: is_plain_def obj_set_def)

lemma badge_step_plain: "is_plain (fst (badge_step e stats st b)) = is_plain (fst st)"
  by (simp add: badge_step_def Let_def is_plain_obj_set)

lemma fold_badge_step_plain:
  "is_plain (fst (foldl (badge_step e stats) st bs)) = is_plain (fst st)"
  by (induction bs arbitrary: st) (simp_all add: badge_step_plain)

lemma plain_json:
  assumes "is_plain m"
  shows "\<exists>al. obj_json m = JObj al \<and> map_of al k = obj_get m k"
  using assms by (cases m) (simp_all add: is_plain_def obj_json_def obj_get_def)

lemma setUnlockedMap_cases:
  "setUnlockedMap e m = Inr e
   \<or> setUnlockedMap e m = Inr (e\<lparr>items := (items e)(ACH_KEY \<mapsto> Serialized (obj_json m))\<rparr>)
     \<and> has_window e \<and> \<not> storage_blocked e"
  by (simp add: setUnlockedMap_def localStorage_setItem_def JSON_stringify_def)

lemma getUnlockedMap_readable:
  assumes "has_window e" and "\<not> storage_blocked e"
    and "items e ACH_KEY = Some (Serialized (JObj al))"
  shows "getUnlockedMap e = Inr (PlainObject al)"
  using assms
  by (simp add: getUnlockedMap_def getUnlockedMap_try_def localStorage_getItem_def no_raw_def
      JSON_parse_def)

lemma getUnlockedMap_total: "\<exists>m. getUnlockedMap e = Inr m"
  by (simp add: getUnlockedMap_def split: sum.split)

lemma persisted_unlock_items:
  assumes "persisted_unlock e k = Some v"
  shows "\<exists>al. items e ACH_KEY = Some (Serialized (JObj al)) \<and> map_of al k = Some v"
  using assms
  by (auto simp: persisted_unlock_def split: option.splits blob.splits json.splits)

text \<open>The environment that \<open>achievementsWith\<close> leaves keeps a truthy entry.\<close>

lemma achievementsWith_keeps:
  assumes p: "persisted_unlock e k = Some v" and t: "truthy v"
  shows "\<exists>a e'. achievementsWith e stats = Inr (a, e') \<and> persisted_unlock e' k = Some v
           \<and> has_window e' = has_window e \<and> storage_blocked e' = storage_blocked e"
proof -
  from persisted_unlock_items [OF p] obtain al where
    al: "items e ACH_KEY = Some (Serialized (JObj al))" and alk: "map_of al k = Some v"
    by blast
  obtain m0 where m0: "getUnlockedMap e = Inr m0"
    using getUnlockedMap_total by blast
  let ?st = "foldl (badge_step e stats) (m0, []) BADGES"
  let ?a = "\<lparr>ach_stats = stats, ach_badges = snd ?st, ach_unlockedMap = fst ?st,
             ach_level = max 1 (\<lfloor>totalCorrect stats / 50\<rfloor> + 1),
             ach_points = totalCorrect stats\<rparr>"
  have aw: "\<And>e'. setUnlockedMap e (fst ?st) = Inr e' \<Longrightarrow> achievementsWith e stats = Inr (?a, e')"
    by (simp add: achievementsWith_def m0 Let_def)
  from setUnlockedMap_cases [of e "fst ?st"] show ?thesis
  proof
    assume s: "setUnlockedMap e (fst ?st) = Inr e"
    show ?thesis
      using aw [OF s] p by (intro exI [of _ ?a] exI [of _ e] conjI) simp_all
  next
    assume "setUnlockedMap e (fst ?st)
        = Inr (e\<lparr>items := (items e)(ACH_KEY \<mapsto> Serialized (obj_json (fst ?st)))\<rparr>)
      \<and> has_window e \<and> \<not> storage_blocked e"
    then have s: "setUnlockedMap e (fst ?st)
        = Inr (e\<lparr>items := (items e)(ACH_KEY \<mapsto> Serialized (obj_json (fst ?st)))\<rparr>)"
      and w: "has_window e" and nb: "\<not> storage_blocked e"
      by simp_all
    have m0': "m0 = PlainObject al"
      using getUnlockedMap_readable [OF w nb al] m0 by simp
    have g0: "obj_get (fst (m0, [])) k = Some v"
      by (simp add: m0' obj_get_def alk)
    have g: "obj_get (fst ?st) k = Some v"
      using g0 t by (rule fold_badge_step_keeps)
    have "is_plain (fst (m0, []))"
      by (simp add: m0' is_plain_def)
    then have "is_plain (fst ?st)"
      by (simp only: fold_badge_step_plain)
    from plain_json [OF this, of k] obtain al' where
      "obj_json (fst ?st) = JObj al'" "map_of al' k = obj_get (fst ?st) k"
      by blast
    then have "persisted_unlock (e\<lparr>items := (items e)(ACH_KEY \<mapsto> Serialized (obj_json (fst ?st)))\<rparr>) k = Some v"
      using g by (simp add: persisted_unlock_def)
    then show ?thesis
      using aw [OF s]
      by (intro exI [of _ ?a]
          exI [of _ "e\<lparr>items := (items e)(ACH_KEY \<mapsto> Serialized (obj_json (fst ?st)))\<rparr>"] conjI)
        simp_all
  qed
qed

lemma computeStats_total:
  assumes "typedRecords e = Inr records"
  shows "\<exists>stats. computeStats e rs = Inr stats"
  using getWeekly_eq [OF assms] by (simp add: computeStats_def Let_def)

lemma getAchievementsState_typed:
  assumes "typedRecords e = Inr records"
  shows "\<exists>stats. computeStats e records = Inr stats
           \<and> getAchievementsState e = achievementsWith e stats"
proof -
  from computeStats_total [OF assms, of records] obtain stats where
    c: "computeStats e records = Inr stats" by blast
  show ?thesis
    by (intro exI [of _ stats] conjI) (simp_all add: c getAchievementsState_def assms)
qed

lemma getAchievementsState_Inr:
  assumes "getAchievementsState e = Inr (a, e')"
  shows "\<exists>stats. achievementsWith e stats = Inr (a, e')"
  using assms by (auto simp: getAchievementsState_def split: sum.splits)

lemma getAchievementsState_keeps:
  assumes "getAchievementsState e = Inr (a, e')"
    and "persisted_unlock e k = Some v" and "truthy v"
  shows "persisted_unlock e' k = Some v \<and> has_window e' = has_window e
         \<and> storage_blocked e' = storage_blocked e"
proof -
  from getAchievementsState_Inr [OF assms(1)] obtain stats where
    w: "achievementsWith e stats = Inr (a, e')" by blast
  from achievementsWith_keeps [OF assms(2) assms(3), of stats] obtain a1 e1 where
    "achievementsWith e stats = Inr (a1, e1)" "persisted_unlock e1 k = Some v"
    "has_window e1 = has_window e" "storage_blocked e1 = storage_blocked e"
    by blast
  then show ?thesis using w by simp
qed

lemma addRecord_frame:
  assumes "addRecord e r = Inr e'"
  shows "e' = e \<or> (\<exists>b. e' = e\<lparr>items := (items e)(KEY \<mapsto> b)\<rparr>)"
  using assms
  by (auto simp: addRecord_def localStorage_setItem_def split: if_splits sum.splits)

lemma later_keeps:
  assumes "later e e1" and "persisted_unlock e k = Some v" and "truthy v"
  shows "persisted_unlock e1 k = Some v \<and> has_window e1 = has_window e
         \<and> storage_blocked e1 = storage_blocked e"
  using assms(1)
proof (induction rule: later.induct)
  case later_refl
  show ?case using assms(2) by simp
next
  case (later_add e1 r e2)
  from addRecord_frame [OF later_add.hyps(2)] show ?case
    using later_add.IH KEY_neq_ACH_KEY by (auto simp: persisted_unlock_def)
next
  case (later_clear e1 e2)
  from clearRecords_only_records [OF later_clear.hyps(2)] show ?case
    using later_clear.IH KEY_neq_ACH_KEY by (auto simp: persisted_unlock_def)
next
  case (later_eval e1 a e2)
  have p: "persisted_unlock e1 k = Some v" using later_eval.IH by simp
  from getAchievementsState_keeps [OF later_eval.hyps(2) p assms(3)] show ?case
    using later_eval.IH by simp
next
  case (later_clock e1 t)
  then show ?case by (simp add: persisted_unlock_def)
qed

lemma badge_step_reports:
  assumes g: "obj_get (fst st) k = Some v" and t: "truthy v"
    and q: "\<forall>x \<in> set (snd st). badge_id (badge x) = k \<longrightarrow>
              unlockedAt x = Some v \<and> unlocked x = fst (check (badge x) stats)"
  shows "\<forall>x \<in> set (snd (badge_step e stats st b)). badge_id (badge x) = k \<longrightarrow>
              unlockedAt x = Some v \<and> unlocked x = fst (check (badge x) stats)"
proof (cases "badge_id b = k")
  case True
  then have "truthy_opt (obj_get (fst st) (badge_id b))"
    using g t by (simp add: truthy_opt_def)
  then show ?thesis
    using g q True by (simp add: badge_step_def Let_def)
next
  case False
  then show ?thesis
    using q by (simp add: badge_step_def Let_def)
qed

lemma fold_badge_step_reports:
  assumes t: "truthy v"
  shows "obj_get (fst st) k = Some v \<Longrightarrow>
     (\<forall>x \<in> set (snd st). badge_id (badge x) = k \<longrightarrow>
              unlockedAt x = Some v \<and> unlocked x = fst (check (badge x) stats)) \<Longrightarrow>
     (\<forall>x \<in> set (snd (foldl (badge_step e stats) st bs)). badge_id (badge x) = k \<longrightarrow>
              unlockedAt x = Some v \<and> unlocked x = fst (check (badge x) stats))"
proof (induction bs arbitrary: st)
  case Nil
  then show ?case by simp
next
  case (Cons b bs)
  have 1: "obj_get (fst (badge_step e stats st b)) k = Some v"
    using Cons.prems(1) t by (rule badge_step_keeps)
  have 2: "\<forall>x \<in> set (snd (badge_step e stats st b)). badge_id (badge x) = k \<longrightarrow>
              unlockedAt x = Some v \<and> unlocked x = fst (check (badge x) stats)"
    using Cons.prems(1) t Cons.prems(2) by (rule badge_step_reports)
  from Cons.IH [OF 1 2] show ?case by simp
qed

lemma fold_badge_step_badges:
  "map badge (snd (foldl (badge_step e stats) st bs)) = map badge (snd st) @ bs"
  by (induction bs arbitrary: st) (simp_all add: badge_step_def Let_def)

lemma achievementsWith_reports:
  assumes w: "has_window e" and nb: "\<not> storage_blocked e"
    and p: "persisted_unlock e k = Some v" and t: "truthy v"
  shows "\<exists>a e'. achievementsWith e stats = Inr (a, e')
     \<and> ach_stats a = stats
     \<and> map badge (ach_badges a) = BADGES
     \<and> (\<forall>x \<in> set (ach_badges a). badge_id (badge x) = k \<longrightarrow>
           unlockedAt x = Some v \<and> unlocked x = fst (check (badge x) stats))"
proof -
  from persisted_unlock_items [OF p] obtain al where
    al: "items e ACH_KEY = Some (Serialized (JObj al))" and alk: "map_of al k = Some v"
    by blast
  have m0: "getUnlockedMap e = Inr (PlainObject al)"
    by (rule getUnlockedMap_readable [OF w nb al])
  let ?st = "foldl (badge_step e stats) (PlainObject al, []) BADGES"
  let ?a = "\<lparr>ach_stats = stats, ach_badges = snd ?st, ach_unlockedMap = fst ?st,
             ach_level = max 1 (\<lfloor>totalCorrect stats / 50\<rfloor> + 1),
             ach_points = totalCorrect stats\<rparr>"
  obtain e' where s: "setUnlockedMap e (fst ?st) = Inr e'"
    using setUnlockedMap_cases [of e "fst ?st"] by blast
  have aw: "achievementsWith e stats = Inr (?a, e')"
    by (simp add: achievementsWith_def m0 Let_def s)
  have g0: "obj_get (fst (PlainObject al, [])) k = Some v"
    by (simp add: obj_get_def alk)
  have q0: "\<forall>x \<in> set (snd (PlainObject al, [] :: BadgeStatus list)). badge_id (badge x) = k \<longrightarrow>
              unlockedAt x = Some v \<and> unlocked x = fst (check (badge x) stats)"
    by simp
  have r: "\<forall>x \<in> set (snd ?st). badge_id (badge x) = k \<longrightarrow>
              unlockedAt x = Some v \<and> unlocked x = fst (check (badge x) stats)"
    using g0 q0 by (rule fold_badge_step_reports [OF t])
  have b: "map badge (snd ?st) = BADGES"
    by (simp add: fold_badge_step_badges)
  show ?thesis
    using aw r b by (intro exI [of _ ?a] exI [of _ e'] conjI) simp_all
qed

lemma obj_get_truthy_step:
  assumes "\<forall>k v. obj_get (fst st) k = Some v \<longrightarrow> truthy v" and "now e \<noteq> 0"
  shows "\<forall>k v. obj_get (fst (badge_step e stats st b)) k = Some v \<longrightarrow> truthy v"
  using assms
  by (simp add: badge_step_def Let_def obj_get_obj_set truthy_def)

lemma obj_get_truthy_fold:
  assumes "now e \<noteq> 0"
  shows "(\<forall>k v. obj_get (fst st) k = Some v \<longrightarrow> truthy v) \<Longrightarrow>
     (\<forall>k v. obj_get (fst (foldl (badge_step e stats) st bs)) k = Some v \<longrightarrow> truthy v)"
proof (induction bs arbitrary: st)
  case Nil
  then show ?case by simp
next
  case (Cons b bs)
  have "\<forall>k v. obj_get (fst (badge_step e stats st b)) k = Some v \<longrightarrow> truthy v"
    using Cons.prems assms by (rule obj_get_truthy_step)
  then have "\<forall>k v. obj_get (fst (foldl (badge_step e stats) (badge_step e stats st b) bs)) k
                 = Some v \<longrightarrow> truthy v"
    by (rule Cons.IH)
  then show ?case by simp
qed

lemma getUnlockedMap_entries:
  assumes "getUnlockedMap e = Inr m0" and "obj_get m0 k = Some v"
  shows "persisted_unlock e k = Some v"
  using assms
  by (auto simp: getUnlockedMap_def getUnlockedMap_try_def localStorage_getItem_def no_raw_def
      JSON_parse_def persisted_unlock_def obj_get_def
      split: if_splits sum.splits option.splits blob.splits json.splits)

lemma persisted_after_write:
  assumes "persisted_unlock (e\<lparr>items := (items e)(ACH_KEY \<mapsto> Serialized (obj_json m))\<rparr>) k = Some v"
  shows "obj_get m k = Some v"
  using assms by (cases m) (simp_all add: persisted_unlock_def obj_json_def obj_get_def)

lemma achievementsWith_truthy:
  assumes ok: "\<forall>k v. persisted_unlock e k = Some v \<longrightarrow> truthy v" and pos: "0 < now e"
    and aw: "achievementsWith e stats = Inr (a, e')"
  shows "(\<forall>k v. persisted_unlock e' k = Some v \<longrightarrow> truthy v) \<and> now e' = now e"
proof -
  obtain m0 where m0: "getUnlockedMap e = Inr m0"
    using getUnlockedMap_total by blast
  let ?m = "fst (foldl (badge_step e stats) (m0, []) BADGES)"
  have s: "setUnlockedMap e ?m = Inr e'"
    using aw by (auto simp: achievementsWith_def m0 Let_def split: sum.splits)
  have t0: "\<forall>k v. obj_get (fst (m0, [] :: BadgeStatus list)) k = Some v \<longrightarrow> truthy v"
    using ok getUnlockedMap_entries [OF m0] by auto
  have n0: "now e \<noteq> 0" using pos by simp
  have t: "\<forall>k v. obj_get ?m k = Some v \<longrightarrow> truthy v"
    using t0 by (rule obj_get_truthy_fold [OF n0])
  from setUnlockedMap_cases [of e ?m] show ?thesis
  proof
    assume "setUnlockedMap e ?m = Inr e"
    then have "e' = e" using s by simp
    then show ?thesis using ok by simp
  next
    assume "setUnlockedMap e ?m
        = Inr (e\<lparr>items := (items e)(ACH_KEY \<mapsto> Serialized (obj_json ?m))\<rparr>)
      \<and> has_window e \<and> \<not> storage_blocked e"
    then have e': "e' = e\<lparr>items := (items e)(ACH_KEY \<mapsto> Serialized (obj_json ?m))\<rparr>"
      using s by simp
    have "\<forall>k v. persisted_unlock e' k = Some v \<longrightarrow> truthy v"
    proof (intro allI impI)
      fix k v
      assume "persisted_unlock e' k = Some v"
      then have "obj_get ?m k = Some v"
        unfolding e' by (rule persisted_after_write)
      then show "truthy v" using t by blast
    qed
    then show ?thesis by (simp add: e')
  qed
qed

text \<open>Every entry that the program has written is truthy.\<close>

lemma ledger_run_truthy:
  assumes "ledger_run e"
  shows "(\<forall>k v. persisted_unlock e k = Some v \<longrightarrow> truthy v) \<and> 0 < now e"
  using assms
proof (induction rule: ledger_run.induct)
  case (run_start e)
  then show ?case by (simp add: persisted_unlock_def)
next
  case (run_add e r e')
  from addRecord_frame [OF run_add.hyps(2)] show ?case
    using run_add.IH KEY_neq_ACH_KEY by (auto simp: persisted_unlock_def)
next
  case (run_clear e e')
  from clearRecords_only_records [OF run_clear.hyps(2)] show ?case
    using run_clear.IH KEY_neq_ACH_KEY by (auto simp: persisted_unlock_def)
next
  case (run_eval e a e')
  from getAchievementsState_Inr [OF run_eval.hyps(2)] obtain stats where
    w: "achievementsWith e stats = Inr (a, e')" by blast
  have ok: "\<forall>k v. persisted_unlock e k = Some v \<longrightarrow> truthy v" and pos: "0 < now e"
    using run_eval.IH by simp_all
  from achievementsWith_truthy [OF ok pos w] show ?case
    using pos by simp
next
  case (run_clock e t)
  then show ?case by (simp add: persisted_unlock_def)
next
  case (run_browser e b q z)
  then show ?case by (simp add: persisted_unlock_def)
qed

lemma achievementsWith_total: "\<exists>a e'. achievementsWith e stats = Inr (a, e')"
proof -
  obtain m0 where m0: "getUnlockedMap e = Inr m0"
    using getUnlockedMap_total by blast
  obtain e' where "setUnlockedMap e (fst (foldl (badge_step e stats) (m0, []) BADGES)) = Inr e'"
    using setUnlockedMap_cases [of e "fst (foldl (badge_step e stats) (m0, []) BADGES)"] by blast
  then show ?thesis
    by (simp add: achievementsWith_def m0 Let_def)
qed

lemma getAchievementsState_total:
  assumes "typedRecords e = Inr records"
  shows "\<exists>a e'. getAchievementsState e = Inr (a, e')"
  using getAchievementsState_typed [OF assms] achievementsWith_total by metis

lemma ex_fresh_facts:
  "typedRecords ex_fresh = Inr [rec_math]
   \<and> unlock_after ex_fresh ''starter-1'' = Inr (Some (JNum 1755500000000))"
  by code_simp

text \<open>
  C2. An entry that the persisted unlock map has, in an environment the program has
  reached (or, in any environment, an entry whose value is truthy), is bound to the same
  value after a call of \<open>getAchievementsState\<close>: it is neither altered nor removed,
  whatever the statistics are and whether or not they satisfy the badge's predicate.
\<close>

theorem unlock_entry_kept:
  assumes "persisted_unlock e k = Some v" and "ledger_run e \<or> truthy v"
    and "typedRecords e = Inr records"
  shows "(\<exists>a e'. getAchievementsState e = Inr (a, e') \<and> persisted_unlock e' k = Some v)
       \<and> (\<forall>stats. \<exists>a e'. achievementsWith e stats = Inr (a, e')
                       \<and> persisted_unlock e' k = Some v)"
proof -
  have t: "truthy v"
    using assms(1) assms(2) ledger_run_truthy [of e] by blast
  show ?thesis
  proof (intro conjI allI)
    from getAchievementsState_typed [OF assms(3)] obtain stats where
      g: "getAchievementsState e = achievementsWith e stats" by blast
    from achievementsWith_keeps [OF assms(1) t, of stats] obtain a e' where
      "achievementsWith e stats = Inr (a, e')" "persisted_unlock e' k = Some v" by blast
    then show "\<exists>a e'. getAchievementsState e = Inr (a, e') \<and> persisted_unlock e' k = Some v"
      using g by (intro exI [of _ a] exI [of _ e'] conjI) simp_all
  next
    fix stats
    from achievementsWith_keeps [OF assms(1) t, of stats] obtain a e' where
      "achievementsWith e stats = Inr (a, e')" "persisted_unlock e' k = Some v" by blast
    then show "\<exists>a e'. achievementsWith e stats = Inr (a, e') \<and> persisted_unlock e' k = Some v"
      by (intro exI [of _ a] exI [of _ e'] conjI)
  qed
qed

theorem unlock_entry_kept_witness:
  "\<exists>e1 e2. unlock_after ex_fresh ''starter-1'' = Inr (Some (JNum 1755500000000))
     \<and> ledger_run e1 \<and> persisted_unlock e1 ''starter-1'' = Some (JNum 1755500000000)
     \<and> clearRecords e1 = Inr e2 \<and> typedRecords e2 = Inr []
     \<and> persisted_unlock e2 ''starter-1'' = Some (JNum 1755500000000)
     \<and> (\<exists>a e3. getAchievementsState e2 = Inr (a, e3)
           \<and> persisted_unlock e3 ''starter-1'' = Some (JNum 1755500000000))"
proof -
  have ty: "typedRecords ex_fresh = Inr [rec_math]"
    using ex_fresh_facts by (rule conjunct1)
  have ua: "unlock_after ex_fresh ''starter-1'' = Inr (Some (JNum 1755500000000))"
    using ex_fresh_facts by (rule conjunct2)
  have r0: "ledger_run ex_fresh"
    by (rule run_start) (simp_all add: ex_fresh_def browser_def store_of_def KEY_def ACH_KEY_def)
  obtain a1 e1 where g1: "getAchievementsState ex_fresh = Inr (a1, e1)"
    using getAchievementsState_total [OF ty] by blast
  have r1: "ledger_run e1"
    using r0 g1 by (rule run_eval)
  have p1: "persisted_unlock e1 ''starter-1'' = Some (JNum 1755500000000)"
    using ua g1 by (simp add: unlock_after_def)
  obtain e2 where c: "clearRecords e1 = Inr e2"
    using clearRecords_total by blast
  have r2: "ledger_run e2"
    using r1 c by (rule run_clear)
  have "items e2 ACH_KEY = items e1 ACH_KEY"
    by (rule clearRecords_keeps_achievements [OF c])
  then have p2: "persisted_unlock e2 ''starter-1'' = Some (JNum 1755500000000)"
    using p1 by (simp add: persisted_unlock_def)
  have t2: "typedRecords e2 = Inr []"
    using getRecords_after_clear [OF c] by (simp add: typedRecords_def)
  have "\<exists>a e3. getAchievementsState e2 = Inr (a, e3)
           \<and> persisted_unlock e3 ''starter-1'' = Some (JNum 1755500000000)"
    using unlock_entry_kept [OF p2 disjI1 [OF r2] t2] by (rule conjunct1)
  with ua r1 p1 c t2 p2 show ?thesis
    by (intro exI [of _ e1] exI [of _ e2] conjI)
qed

text \<open>
  C3, as stated, fails: with the time 1000 recorded for \<open>starter-1\<close> and no record stored,
  the badge is reported with \<open>unlocked = false\<close> and \<open>unlockedAt = 1000\<close>.
\<close>

theorem locked_badge_with_timestamp_counterexample:
  "persisted_unlock ex_locked ''starter-1'' = Some (JNum 1000)
   \<and> report_after ex_locked ''starter-1'' = Inr (Some (False, Some (JNum 1000)))"
  by code_simp

text \<open>
  C3, amended. In a browser whose storage can be read, once a truthy time is recorded for
  a badge id, every later call of \<open>getAchievementsState\<close> reports the badges of \<open>BADGES\<close>,
  and the badge of that id with the recorded time as \<open>unlockedAt\<close>; its flag \<open>unlocked\<close> is
  what the predicate gives for the statistics of that call; the entry stays recorded.
\<close>

theorem unlocked_badge_report:
  assumes "has_window e" and "\<not> storage_blocked e"
    and "persisted_unlock e k = Some v" and "truthy v"
    and "later e e1" and "typedRecords e1 = Inr records"
  shows "\<exists>a e2. getAchievementsState e1 = Inr (a, e2)
     \<and> map badge (ach_badges a) = BADGES
     \<and> (\<forall>x \<in> set (ach_badges a). badge_id (badge x) = k \<longrightarrow>
           unlockedAt x = Some v \<and> unlocked x = fst (check (badge x) (ach_stats a)))
     \<and> persisted_unlock e2 k = Some v"
proof -
  from later_keeps [OF assms(5) assms(3) assms(4)]
  have p1: "persisted_unlock e1 k = Some v" and w1: "has_window e1"
    and nb1: "\<not> storage_blocked e1"
    using assms(1) assms(2) by simp_all
  from getAchievementsState_typed [OF assms(6)] obtain stats where
    g: "getAchievementsState e1 = achievementsWith e1 stats" by blast
  from achievementsWith_reports [OF w1 nb1 p1 assms(4), of stats] obtain a e2 where
    aw: "achievementsWith e1 stats = Inr (a, e2)"
    and st: "ach_stats a = stats"
    and b: "map badge (ach_badges a) = BADGES"
    and r: "\<forall>x \<in> set (ach_badges a). badge_id (badge x) = k \<longrightarrow>
           unlockedAt x = Some v \<and> unlocked x = fst (check (badge x) stats)"
    by blast
  have ga: "getAchievementsState e1 = Inr (a, e2)"
    using g aw by simp
  have k: "persisted_unlock e2 k = Some v"
    using getAchievementsState_keeps [OF ga p1 assms(4)] by simp
  show ?thesis
    using ga b r k by (intro exI [of _ a] exI [of _ e2] conjI) (simp_all add: st)
qed

lemma ex_cleared_facts:
  "has_window ex_unlocked_before \<and> \<not> storage_blocked ex_unlocked_before
   \<and> persisted_unlock ex_unlocked_before ''starter-1'' = Some (JNum 1000)
   \<and> typedRecords ex_unlocked_before = Inr [rec_math]
   \<and> typedRecords ex_cleared = Inr []
   \<and> report_after ex_unlocked_before ''starter-1'' = Inr (Some (True, Some (JNum 1000)))
   \<and> report_after ex_cleared ''starter-1'' = Inr (Some (False, Some (JNum 1000)))"
  by code_simp

lemma ex_cleared_later: "later ex_unlocked_before ex_cleared"
proof -
  have "clearRecords ex_unlocked_before = Inr ex_cleared"
    by (simp add: clearRecords_def localStorage_removeItem_def ex_cleared_def
        ex_unlocked_before_def browser_def)
  with later_refl show ?thesis by (rule later_clear)
qed

theorem unlocked_badge_report_witness:
  "has_window ex_unlocked_before \<and> \<not> storage_blocked ex_unlocked_before
   \<and> persisted_unlock ex_unlocked_before ''starter-1'' = Some (JNum 1000)
   \<and> truthy (JNum 1000)
   \<and> later ex_unlocked_before ex_cleared
   \<and> typedRecords ex_cleared = Inr []
   \<and> (\<exists>a e2. getAchievementsState ex_cleared = Inr (a, e2)
         \<and> reported a ''starter-1'' = Some (False, Some (JNum 1000))
         \<and> persisted_unlock e2 ''starter-1'' = Some (JNum 1000))"
proof -
  have w: "has_window ex_unlocked_before" using ex_cleared_facts by simp
  have nb: "\<not> storage_blocked ex_unlocked_before" using ex_cleared_facts by simp
  have p: "persisted_unlock ex_unlocked_before ''starter-1'' = Some (JNum 1000)"
    using ex_cleared_facts by simp
  have t: "truthy (JNum 1000)" by (simp add: truthy_def)
  have r: "typedRecords ex_cleared = Inr []" using ex_cleared_facts by simp
  from unlocked_badge_report [OF w nb p t ex_cleared_later r] obtain a e2 where
    g: "getAchievementsState ex_cleared = Inr (a, e2)"
    and k: "persisted_unlock e2 ''starter-1'' = Some (JNum 1000)"
    by (elim exE conjE)
  have "report_after ex_cleared ''starter-1'' = Inr (Some (False, Some (JNum 1000)))"
    using ex_cleared_facts by simp
  then have rp: "reported a ''starter-1'' = Some (False, Some (JNum 1000))"
    using g by (simp add: report_after_def)
  have "\<exists>a e2. getAchievementsState ex_cleared = Inr (a, e2)
         \<and> reported a ''starter-1'' = Some (False, Some (JNum 1000))
         \<and> persisted_unlock e2 ''starter-1'' = Some (JNum 1000)"
    using g rp k by (intro exI [of _ a] exI [of _ e2] conjI)
  with w nb p t ex_cleared_later r show ?thesis by (intro conjI)
qed

end
